theory Spec2Isabelle
  imports Main "HOL-Library.Multiset" "HOL-Library.Sublist"
begin

section \<open>The parameter lattice of \<^verbatim>\<open>namelist_lattice.py\<close>\<close>

text \<open>
  The class \<^verbatim>\<open>namelist_lattice\<close> keeps a registry of parameter dimensions
  (\<^verbatim>\<open>param_names\<close>, \<^verbatim>\<open>param_vectors\<close>, two masks, the group labels) and a
  record array \<^verbatim>\<open>_lattice\<close> of points rebuilt by every successful \<^verbatim>\<open>expand\<close>.
  The object is a record that every method takes and returns; an exception is a value
  of \<open>error\<close> returned together with the object as the raise leaves it.

  The NumPy and Python calls of the source are modelled by what they compute on lists:
  \<^item> an array is the list of its cells, each cell tagged with the scalar type it has in
    the array (\<^verbatim>\<open>np.str_\<close>, \<^verbatim>\<open>np.int64\<close>, \<^verbatim>\<open>np.float64\<close>); building one array from
    cells of several types casts all of them to the common type (strings win over
    floats, floats over integers), as \<^verbatim>\<open>np.atleast_2d\<close> and \<^verbatim>\<open>np.vstack\<close> do;
  \<^item> integers are unbounded (the 64-bit range of \<^verbatim>\<open>np.int64\<close> is not modelled);
  \<^item> floating-point numbers are an abstract type \<open>'f\<close>: the sampling, the logarithm,
    the conversion from an integer and the printing of a float are parameters
    (\<open>float_ops\<close>), so nothing proved here depends on rounding;
  \<^item> \<^verbatim>\<open>np.meshgrid\<close> is called with its default \<^verbatim>\<open>indexing='xy'\<close>;
  \<^item> \<^verbatim>\<open>np.vstack\<close> raises a \<^verbatim>\<open>ValueError\<close> for no array and for arrays of different
    lengths; \<^verbatim>\<open>np.core.records.fromarrays\<close> strips the names it is given and raises a
    \<^verbatim>\<open>ValueError\<close> when two of them are equal;
  \<^item> a nested sequence whose rows differ in length is refused by \<^verbatim>\<open>np.array\<close> and
    \<^verbatim>\<open>np.ravel\<close> with a \<^verbatim>\<open>ValueError\<close> (NumPy 1.24 and later);
  \<^item> the fields of a record read by \<^verbatim>\<open>list(values)\<close> are NumPy scalars, of which
    only \<^verbatim>\<open>np.str_\<close> is an instance of a Python built-in type tested by the source;
  \<^item> a warning changes nothing and is left out;
  \<^item> strings are lists of 8-bit characters read as code points below 256.
\<close>

subsection \<open>Errors\<close>

text \<open>
  One constructor per raise site. The first six carry the names the specification gives
  to the \<^verbatim>\<open>assert\<close>s and \<^verbatim>\<open>RuntimeError\<close>s of the source; a cardinality mismatch is
  the \<^verbatim>\<open>ValueError\<close> of \<^verbatim>\<open>np.vstack\<close> on rows of unequal length, a length mismatch
  of a mask the \<^verbatim>\<open>IndexError\<close> of boolean indexing. The remaining ones are the
  asserts on group labels and group members, the exceptions of Python and NumPy
  themselves, and the assert on the flags of \<^verbatim>\<open>create_clones\<close>.
\<close>

datatype error =
    DuplicateNameError
  | ConflictingArgumentsError
  | ArityMismatchError
  | CardinalityMismatchError
  | LengthMismatchError
  | LatticeNotReadyError
  | RootCaseNotFoundError
  | MissingGroupLabelError
  | DuplicateGroupLabelError
  | GroupDuplicateError
  | GroupNeedsValuesError
  | PyTypeError
  | PyIndexError
  | PyAttributeError
  | PyOverflowError
  | NpValueError
  | ReadExistingFlagsError

subsection \<open>Strings\<close>

definition newline :: char where
  "newline = CHR 0x0A"

definition carriage_return :: char where
  "carriage_return = CHR 0x0D"

definition is_space :: "char \<Rightarrow> bool" where
  \<comment> \<open>the characters \<^verbatim>\<open>str.split()\<close> and \<^verbatim>\<open>str.strip()\<close> treat as whitespace\<close>
  "is_space c = (c \<in> set [CHR 0x09, CHR 0x0A, CHR 0x0B, CHR 0x0C, CHR 0x0D,
      CHR 0x1C, CHR 0x1D, CHR 0x1E, CHR 0x1F, CHR 0x20, CHR 0x85, CHR 0xA0])"

definition remove_ws :: "string \<Rightarrow> string" where
  \<comment> \<open>\<^verbatim>\<open>''.join(s.split())\<close>\<close>
  "remove_ws s = filter (\<lambda>c. \<not> is_space c) s"

definition strip :: "string \<Rightarrow> string" where
  \<comment> \<open>\<^verbatim>\<open>s.strip()\<close>\<close>
  "strip s = rev (dropWhile is_space (rev (dropWhile is_space s)))"

fun split_on :: "char \<Rightarrow> string \<Rightarrow> string list" where
  \<comment> \<open>\<^verbatim>\<open>s.split(d)\<close> for a one-character separator: never empty\<close>
  "split_on d [] = [[]]"
| "split_on d (c # cs) =
     (if c = d then [] # split_on d cs
      else (case split_on d cs of [] \<Rightarrow> [[c]] | w # ws \<Rightarrow> (c # w) # ws))"

definition replace_char :: "char \<Rightarrow> char \<Rightarrow> string \<Rightarrow> string" where
  \<comment> \<open>\<^verbatim>\<open>s.replace(a, b)\<close> for single characters\<close>
  "replace_char a b s = map (\<lambda>c. if c = a then b else c) s"

definition remove_char :: "char \<Rightarrow> string \<Rightarrow> string" where
  \<comment> \<open>\<^verbatim>\<open>s.replace(a, '')\<close>\<close>
  "remove_char a s = filter (\<lambda>c. c \<noteq> a) s"

fun join :: "string \<Rightarrow> string list \<Rightarrow> string" where
  \<comment> \<open>\<^verbatim>\<open>sep.join(xs)\<close>\<close>
  "join sep [] = []"
| "join sep [x] = x"
| "join sep (x # y # ys) = x @ sep @ join sep (y # ys)"

fun str_of_nat :: "nat \<Rightarrow> string" where
  "str_of_nat n =
     (if n < 10 then [''0123456789'' ! n]
      else str_of_nat (n div 10) @ [''0123456789'' ! (n mod 10)])"

declare str_of_nat.simps [simp del]

definition str_of_int :: "int \<Rightarrow> string" where
  \<comment> \<open>\<^verbatim>\<open>str(n)\<close> of an integer\<close>
  "str_of_int n = (if n < 0 then CHR ''-'' # str_of_nat (nat (- n)) else str_of_nat (nat n))"

subsection \<open>Array cells\<close>

datatype 'f val = NpStr string | NpInt int | NpFloat 'f

datatype dtype = DInt | DFloat | DStr

record 'f float_ops =
  np_linspace :: "'f \<Rightarrow> 'f \<Rightarrow> nat \<Rightarrow> 'f list"
  np_log10 :: "'f \<Rightarrow> 'f"
  float_of_int :: "int \<Rightarrow> 'f"
  float_str :: "'f \<Rightarrow> string"

fun is_str :: "'f val \<Rightarrow> bool" where
  "is_str (NpStr s) = True"
| "is_str v = False"

fun is_float :: "'f val \<Rightarrow> bool" where
  "is_float (NpFloat x) = True"
| "is_float v = False"

definition common_dtype :: "'f val list \<Rightarrow> dtype" where
  "common_dtype cells =
     (if list_ex is_str cells then DStr else if list_ex is_float cells then DFloat else DInt)"

fun cast :: "'f float_ops \<Rightarrow> dtype \<Rightarrow> 'f val \<Rightarrow> 'f val" where
  "cast fo DStr (NpInt n) = NpStr (str_of_int n)"
| "cast fo DStr (NpFloat x) = NpStr (float_str fo x)"
| "cast fo DFloat (NpInt n) = NpFloat (float_of_int fo n)"
| "cast fo d v = v"

definition promote :: "'f float_ops \<Rightarrow> 'f val list list \<Rightarrow> 'f val list list" where
  \<comment> \<open>the rows of one array: every cell cast to the common type of all cells\<close>
  "promote fo rows = map (map (cast fo (common_dtype (concat rows)))) rows"

subsection \<open>The object\<close>

record 'f recarray =
  rec_names :: "string list"
  rec_rows :: "'f val list list"

record 'f namelist_lattice =
  component :: string
  nofill :: bool
  param_vectors :: "'f val list list"
  param_names :: "string list"
  xml_mask :: "int list"
  paramgroup_mask :: "int list"
  paramgroup_labels :: "string option list"
  clone_dirs :: "string list"
  priv_lattice :: "'f recarray option"

definition init :: "string \<Rightarrow> bool \<Rightarrow> 'f namelist_lattice" where
  \<comment> \<open>\<^verbatim>\<open>__init__(component, nofill)\<close>\<close>
  "init cmp nf =
     \<lparr>component = cmp, nofill = nf, param_vectors = [], param_names = [], xml_mask = [],
      paramgroup_mask = [], paramgroup_labels = [], clone_dirs = [], priv_lattice = None\<rparr>"

definition lattice_property :: "'f namelist_lattice \<Rightarrow> error + 'f recarray option" where
  \<comment> \<open>the property \<^verbatim>\<open>lattice\<close>: the stored \<^verbatim>\<open>_lattice\<close>, whatever it is\<close>
  "lattice_property st =
     (if length (param_names st) < 2 then Inl LatticeNotReadyError
      else Inr (priv_lattice st))"

subsection \<open>Building the lattice\<close>

definition xy_swap :: "'a list \<Rightarrow> 'a list" where
  "xy_swap xs = (case xs of a # b # r \<Rightarrow> b # a # r | _ \<Rightarrow> xs)"

definition meshgrid_points :: "'a list list \<Rightarrow> 'a list list" where
  \<comment> \<open>\<^verbatim>\<open>np.meshgrid(*vs)\<close> with the default \<^verbatim>\<open>indexing='xy'\<close>, each grid raveled in C
      order, read point by point: the grids have the axes of the second vector, the
      first, the third, ..., and the last axis varies fastest\<close>
  "meshgrid_points vs = map xy_swap (product_lists (xy_swap vs))"

definition all_same_length :: "'a list list \<Rightarrow> bool" where
  "all_same_length vs = list_all (\<lambda>v. length v = length (hd vs)) vs"

definition columns_points :: "'a list list \<Rightarrow> 'a list list" where
  \<comment> \<open>the columns of a rectangular 2-d array whose rows are \<open>vs\<close>\<close>
  "columns_points vs = map (\<lambda>i. map (\<lambda>v. v ! i) vs) [0..<length (hd vs)]"

definition default_names :: "nat \<Rightarrow> nat \<Rightarrow> string list" where
  "default_names k n = map (\<lambda>i. CHR ''f'' # str_of_nat i) [k..<n]"

definition field_names :: "string list \<Rightarrow> nat \<Rightarrow> string list" where
  \<comment> \<open>\<^verbatim>\<open>format_parser\<close>: the first \<open>n\<close> names stripped, missing ones named f0, f1, ...\<close>
  "field_names ns n = (let given = map strip (take n ns) in given @ default_names (length given) n)"

definition fromarrays :: "string list \<Rightarrow> nat \<Rightarrow> 'f val list list \<Rightarrow> error + 'f recarray" where
  \<comment> \<open>\<^verbatim>\<open>np.core.records.fromarrays(points, names=ns)\<close> for \<open>n\<close> columns, given as the
      list of records; a repeated field name is a \<^verbatim>\<open>ValueError\<close>\<close>
  "fromarrays ns n pts =
     (if \<not> distinct (field_names ns n) then Inl NpValueError
      else Inr \<lparr>rec_names = field_names ns n, rec_rows = pts\<rparr>)"

definition lattice_points :: "'f float_ops \<Rightarrow> bool \<Rightarrow> 'f val list list \<Rightarrow> error + 'f val list list" where
  \<comment> \<open>\<^verbatim>\<open>points\<close>, read column by column; \<^verbatim>\<open>np.vstack\<close> needs one array at least,
      rows of one length, and casts the cells to their common type\<close>
  "lattice_points fo nf vs =
     (if vs = [] then Inl NpValueError
      else if \<not> nf then Inr (map (map (cast fo (common_dtype (concat vs)))) (meshgrid_points vs))
      else if \<not> all_same_length vs then Inl CardinalityMismatchError
      else Inr (map (map (cast fo (common_dtype (concat vs)))) (columns_points vs)))"

definition build_lattice :: "'f float_ops \<Rightarrow> 'f namelist_lattice \<Rightarrow> error option \<times> 'f namelist_lattice" where
  \<comment> \<open>\<^verbatim>\<open>_build_lattice\<close>: \<^verbatim>\<open>_lattice\<close> is assigned only when nothing raised\<close>
  "build_lattice fo st =
     (case lattice_points fo (nofill st) (param_vectors st) of
        Inl e \<Rightarrow> (Some e, st)
      | Inr pts \<Rightarrow>
          (case fromarrays (param_names st) (length (param_vectors st)) pts of
             Inl e \<Rightarrow> (Some e, st)
           | Inr L \<Rightarrow> (None, st\<lparr>priv_lattice := Some L\<rparr>)))"

subsection \<open>Adding dimensions\<close>

text \<open>
  The arguments of \<^verbatim>\<open>expand\<close>. \<open>names\<close> is \<^verbatim>\<open>np.atleast_1d(names)\<close>: one string or
  a list of strings. \<open>limits\<close> is a list of pairs (\<^verbatim>\<open>np.atleast_2d(limits)\<close>) and
  \<open>nsamples\<close> a list of integers, each \<open>None\<close> when the argument is not passed.
  \<open>pvalues\<close> is the argument \<^verbatim>\<open>values\<close> as Python passes it: a flat list of
  scalars or a list of lists. \<open>group_labels\<close> is \<open>None\<close> or the list of labels.
\<close>

datatype 'f pyvalues = Flat "'f val list" | Nested "'f val list list"

record 'f expand_args =
  names :: "string list"
  limits :: "('f \<times> 'f) list option"
  nsamples :: "int list option"
  pvalues :: "'f pyvalues option"
  logspace :: bool
  xmlchange :: bool
  is_group :: bool
  group_labels :: "string list option"

definition atleast_1d_labels :: "string list option \<Rightarrow> string option list" where
  \<comment> \<open>\<^verbatim>\<open>np.atleast_1d(group_labels)\<close>: the default \<^verbatim>\<open>None\<close> becomes \<^verbatim>\<open>[None]\<close>\<close>
  "atleast_1d_labels gl = (case gl of None \<Rightarrow> [None] | Some ls \<Rightarrow> map Some ls)"

definition atleast_2d :: "'f float_ops \<Rightarrow> 'f pyvalues \<Rightarrow> error + 'f val list list" where
  \<comment> \<open>\<^verbatim>\<open>np.atleast_2d(values)\<close>: a flat list is one row; the rows of a nested list
      must have one length\<close>
  "atleast_2d fo v =
     (case v of
        Flat vs \<Rightarrow> Inr (promote fo [vs])
      | Nested rows \<Rightarrow>
          if rows = [] then Inr [[]]
          else if all_same_length rows then Inr (promote fo rows)
          else Inl NpValueError)"

definition select_where :: "'a list \<Rightarrow> int list \<Rightarrow> error + 'a list" where
  \<comment> \<open>\<^verbatim>\<open>np.array(xs)[np.where(msk)]\<close>: the entries at the positions where the mask is
      not zero; a position past the end is an \<^verbatim>\<open>IndexError\<close>\<close>
  "select_where xs msk =
     (if list_ex (\<lambda>m. m \<noteq> 0) (drop (length xs) msk) then Inl PyIndexError
      else Inr (map fst (filter (\<lambda>p. snd p \<noteq> 0) (zip xs msk))))"

definition np_ravel :: "'a list list \<Rightarrow> error + 'a list" where
  \<comment> \<open>\<^verbatim>\<open>np.ravel\<close> of a list of lists\<close>
  "np_ravel xss = (if xss = [] \<or> all_same_length xss then Inr (concat xss) else Inl NpValueError)"

definition group_members :: "'f namelist_lattice \<Rightarrow> error + string list" where
  \<comment> \<open>the member names of all registered groups: \<^verbatim>\<open>all_groupparams\<close>\<close>
  "group_members st =
     (case select_where (param_names st) (paramgroup_mask st) of
        Inl e \<Rightarrow> Inl e
      | Inr gs \<Rightarrow> np_ravel (map (split_on CHR '','') gs))"

definition clean_value :: "'f pyvalues option \<Rightarrow> nat \<Rightarrow> error + 'f pyvalues option" where
  \<comment> \<open>\<^verbatim>\<open>values[i] = ''.join(values[i].split())\<close> on the argument as passed\<close>
  "clean_value vo i =
     (case vo of
        None \<Rightarrow> Inl PyTypeError
      | Some (Flat vs) \<Rightarrow>
          if i < length vs then
            (case vs ! i of
               NpStr s \<Rightarrow> Inr (Some (Flat (vs[i := NpStr (remove_ws s)])))
             | _ \<Rightarrow> Inl PyAttributeError)
          else Inl PyIndexError
      | Some (Nested rows) \<Rightarrow>
          if i < length rows then Inl PyAttributeError else Inl PyIndexError)"

definition check_name ::
  "'f namelist_lattice \<Rightarrow> bool \<Rightarrow> string option list \<Rightarrow> string list \<times> 'f pyvalues option \<Rightarrow> nat
     \<Rightarrow> error + string list \<times> 'f pyvalues option" where
  \<comment> \<open>one round of the loop that checks the user input, for the name at position \<open>i\<close>\<close>
  "check_name st grp labels nv i =
     (let name = fst nv ! i in
      if name \<in> set (param_names st) then Inl DuplicateNameError
      else if \<not> grp then Inr nv
      else
        let name' = remove_ws name in
        (case clean_value (snd nv) i of
           Inl e \<Rightarrow> Inl e
         | Inr vo' \<Rightarrow>
             if \<not> i < length labels then Inl PyIndexError
             else if labels ! i = None then Inl MissingGroupLabelError
             else if labels ! i \<in> set (paramgroup_labels st) then Inl DuplicateGroupLabelError
             else
               (case group_members st of
                  Inl e \<Rightarrow> Inl e
                | Inr all_groupparams \<Rightarrow>
                    if list_ex (\<lambda>groupparam. groupparam \<in> set all_groupparams)
                         (split_on CHR '','' name')
                    then Inl DuplicateNameError
                    else if \<not> distinct (split_on CHR '','' name') then Inl GroupDuplicateError
                    else Inr ((fst nv)[i := name'], vo'))))"

fun check_names ::
  "'f namelist_lattice \<Rightarrow> bool \<Rightarrow> string option list \<Rightarrow> nat list \<Rightarrow> string list \<times> 'f pyvalues option
     \<Rightarrow> error + string list \<times> 'f pyvalues option" where
  "check_names st grp labels [] nv = Inr nv"
| "check_names st grp labels (i # is) nv =
     (case check_name st grp labels nv i of
        Inl e \<Rightarrow> Inl e
      | Inr nv' \<Rightarrow> check_names st grp labels is nv')"

definition arity_cell :: "string \<Rightarrow> 'f val \<Rightarrow> error option" where
  "arity_cell name v =
     (case v of
        NpStr s \<Rightarrow>
          if length (split_on CHR '','' name) = length (split_on CHR '','' s) then None
          else Some ArityMismatchError
      | _ \<Rightarrow> Some PyAttributeError)"

fun first_error :: "error option list \<Rightarrow> error option" where
  "first_error [] = None"
| "first_error (None # es) = first_error es"
| "first_error (Some e # es) = Some e"

definition check_arity :: "string list \<Rightarrow> 'f val list list \<Rightarrow> error option" where
  \<comment> \<open>every value of a group has as many comma-separated parts as the group has names\<close>
  "check_arity ns rows = first_error (concat (map (\<lambda>(n, row). map (arity_cell n) row) (zip ns rows)))"

definition quote_check :: "'f val list list \<Rightarrow> error option" where
  \<comment> \<open>the loop that warns about unquoted strings reads the first character of every
      string value: an empty string is an \<^verbatim>\<open>IndexError\<close>; the warnings change nothing\<close>
  "quote_check rows = (if NpStr [] \<in> set (concat rows) then Some PyIndexError else None)"

fun insert_sampled ::
  "'f float_ops \<Rightarrow> bool \<Rightarrow> (('f \<times> 'f) \<times> int) list \<Rightarrow> 'f namelist_lattice
     \<Rightarrow> error option \<times> 'f namelist_lattice" where
  \<comment> \<open>the loop over \<^verbatim>\<open>np.linspace\<close>: a negative sample count is a \<^verbatim>\<open>ValueError\<close>\<close>
  "insert_sampled fo lg [] st = (None, st)"
| "insert_sampled fo lg ((lim, n) # rest) st =
     (if n < 0 then (Some NpValueError, st)
      else
        let vals = (if lg then np_linspace fo (np_log10 fo (fst lim)) (np_log10 fo (snd lim)) (nat n)
                    else np_linspace fo (fst lim) (snd lim) (nat n))
        in insert_sampled fo lg rest (st\<lparr>param_vectors := param_vectors st @ [map NpFloat vals]\<rparr>))"

definition flag_and_build ::
  "'f float_ops \<Rightarrow> 'f expand_args \<Rightarrow> nat \<Rightarrow> 'f namelist_lattice \<Rightarrow> error option \<times> 'f namelist_lattice" where
  \<comment> \<open>the end of \<^verbatim>\<open>expand\<close>: the two masks and the labels are extended for the \<open>n\<close>
      names, then the lattice is rebuilt\<close>
  "flag_and_build fo a n st =
     (let st1 = st\<lparr>xml_mask := xml_mask st @ replicate n (if xmlchange a then 1 else 0)\<rparr>;
          st2 = (if is_group a
                 then st1\<lparr>paramgroup_mask := paramgroup_mask st1 @ replicate n 1,
                          paramgroup_labels := paramgroup_labels st1 @ atleast_1d_labels (group_labels a)\<rparr>
                 else st1\<lparr>paramgroup_mask := paramgroup_mask st1 @ replicate n 0\<rparr>)
      in build_lattice fo st2)"

definition expand ::
  "'f float_ops \<Rightarrow> 'f expand_args \<Rightarrow> 'f namelist_lattice \<Rightarrow> error option \<times> 'f namelist_lattice" where
  "expand fo a st =
     (case check_names st (is_group a) (atleast_1d_labels (group_labels a))
             [0..<length (names a)] (names a, pvalues a) of
        Inl e \<Rightarrow> (Some e, st)
      | Inr (ns, vo) \<Rightarrow>
          (case vo of
             None \<Rightarrow>
               (case (limits a, nsamples a) of
                  (Some lims, Some nsamp) \<Rightarrow>
                    if is_group a then (Some GroupNeedsValuesError, st)
                    else if \<not> (length ns = length lims \<and> length ns = length nsamp)
                    then (Some LengthMismatchError, st)
                    else
                      (case insert_sampled fo (logspace a) (zip lims nsamp)
                              (st\<lparr>param_names := param_names st @ ns\<rparr>) of
                         (Some e, st') \<Rightarrow> (Some e, st')
                       | (None, st') \<Rightarrow> flag_and_build fo a (length ns) st')
                | _ \<Rightarrow> (Some ConflictingArgumentsError, st))
           | Some v \<Rightarrow>
               if \<not> (limits a = None \<and> nsamples a = None) then (Some ConflictingArgumentsError, st)
               else
                 (case atleast_2d fo v of
                    Inl e \<Rightarrow> (Some e, st)
                  | Inr rows \<Rightarrow>
                      if length ns \<noteq> length rows then (Some LengthMismatchError, st)
                      else
                        (case (if is_group a then check_arity ns rows else None) of
                           Some e \<Rightarrow> (Some e, st)
                         | None \<Rightarrow>
                             (case quote_check rows of
                                Some e \<Rightarrow> (Some e, st)
                              | None \<Rightarrow>
                                  flag_and_build fo a (length ns)
                                    (st\<lparr>param_names := param_names st @ ns,
                                        param_vectors := param_vectors st @ rows\<rparr>))))))"

subsection \<open>Calls used as examples\<close>

definition unit_float_ops :: "unit float_ops" where
  \<comment> \<open>the float interface with a single float: enough to run the model on registries
      of integers and strings, where no float arises\<close>
  "unit_float_ops =
     \<lparr>np_linspace = (\<lambda>a b n. replicate n ()), np_log10 = (\<lambda>x. ()),
      float_of_int = (\<lambda>n. ()), float_str = (\<lambda>x. ''nan'')\<rparr>"

definition values_call :: "string \<Rightarrow> 'f val list \<Rightarrow> 'f expand_args" where
  \<comment> \<open>\<^verbatim>\<open>expand(name, values=vs)\<close>\<close>
  "values_call name vs =
     \<lparr>names = [name], limits = None, nsamples = None, pvalues = Some (Flat vs),
      logspace = False, xmlchange = False, is_group = False, group_labels = None\<rparr>"

definition group_call :: "string \<Rightarrow> string list \<Rightarrow> string \<Rightarrow> 'f expand_args" where
  \<comment> \<open>\<^verbatim>\<open>expand(name, values=vs, group=True, group_labels=label)\<close>\<close>
  "group_call name vs label =
     \<lparr>names = [name], limits = None, nsamples = None, pvalues = Some (Flat (map NpStr vs)),
      logspace = False, xmlchange = False, is_group = True, group_labels = Some [label]\<rparr>"

definition both_call :: "string \<Rightarrow> 'f val list \<Rightarrow> 'f \<times> 'f \<Rightarrow> int \<Rightarrow> 'f expand_args" where
  \<comment> \<open>\<^verbatim>\<open>expand(name, limits=lim, nsamples=n, values=vs)\<close>\<close>
  "both_call name vs lim n =
     \<lparr>names = [name], limits = Some [lim], nsamples = Some [n], pvalues = Some (Flat vs),
      logspace = False, xmlchange = False, is_group = False, group_labels = None\<rparr>"

definition bare_call :: "string \<Rightarrow> 'f expand_args" where
  \<comment> \<open>\<^verbatim>\<open>expand(name)\<close>\<close>
  "bare_call name =
     \<lparr>names = [name], limits = None, nsamples = None, pvalues = None,
      logspace = False, xmlchange = False, is_group = False, group_labels = None\<rparr>"

definition registry_a :: "bool \<Rightarrow> unit namelist_lattice" where
  \<comment> \<open>a new object after \<^verbatim>\<open>expand('a', values=[1, 2])\<close>\<close>
  "registry_a nf =
     snd (expand unit_float_ops (values_call ''a'' [NpInt 1, NpInt 2]) (init ''eam'' nf))"

definition registry_ab :: "bool \<Rightarrow> unit namelist_lattice" where
  \<comment> \<open>then \<^verbatim>\<open>expand('b', values=[10, 20])\<close>\<close>
  "registry_ab nf =
     snd (expand unit_float_ops (values_call ''b'' [NpInt 10, NpInt 20]) (registry_a nf))"

definition registry_grp :: "unit namelist_lattice" where
  \<comment> \<open>a new object after
      \<^verbatim>\<open>expand('p1,p2,p3', values=['1,1,1', '2,2,2'], group=True, group_labels='grp')\<close>\<close>
  "registry_grp =
     snd (expand unit_float_ops (group_call ''p1,p2,p3'' [''1,1,1'', ''2,2,2''] ''grp'')
       (init ''eam'' False))"

definition registry_mismatch :: "unit namelist_lattice" where
  \<comment> \<open>a new object in no-fill mode after \<^verbatim>\<open>expand('a', values=[1, 2])\<close> and the failed
      \<^verbatim>\<open>expand('b', values=[10, 20, 30])\<close>\<close>
  "registry_mismatch =
     snd (expand unit_float_ops (values_call ''b'' [NpInt 10, NpInt 20, NpInt 30]) (registry_a True))"

definition registry_big :: "unit namelist_lattice" where
  \<comment> \<open>a new object after \<^verbatim>\<open>expand('a', values=[150000, 200000])\<close> and
      \<^verbatim>\<open>expand('b', values=[1, 2])\<close>\<close>
  "registry_big =
     snd (expand unit_float_ops (values_call ''b'' [NpInt 1, NpInt 2])
       (snd (expand unit_float_ops (values_call ''a'' [NpInt 150000, NpInt 200000]) (init ''eam'' False))))"

subsection \<open>Filtering\<close>

definition filter_lattice :: "bool list \<Rightarrow> 'f namelist_lattice \<Rightarrow> error option \<times> 'f namelist_lattice" where
  \<comment> \<open>\<^verbatim>\<open>filter(mask)\<close>: \<^verbatim>\<open>self._lattice[mask]\<close> with a boolean array; indexing \<^verbatim>\<open>None\<close>
      is a \<^verbatim>\<open>TypeError\<close>, a mask of another length an \<^verbatim>\<open>IndexError\<close>\<close>
  "filter_lattice msk st =
     (case priv_lattice st of
        None \<Rightarrow> (Some PyTypeError, st)
      | Some L \<Rightarrow>
          if length msk \<noteq> length (rec_rows L) then (Some LengthMismatchError, st)
          else (None, st\<lparr>priv_lattice :=
                  Some (L\<lparr>rec_rows := map (\<lambda>i. rec_rows L ! i)
                                         (filter (\<lambda>i. msk ! i) [0..<length (rec_rows L)])\<rparr>)\<rparr>))"

subsection \<open>Naming the clone of a point\<close>

text \<open>
  \<^verbatim>\<open>create_clones\<close> first checks that a lattice is stored and that the root case
  exists (\<open>root_is_dir\<close> is \<^verbatim>\<open>os.path.isdir(root_case)\<close>). Cloning, directory
  removal, \<^verbatim>\<open>xmlchange\<close> and job submission are calls to external programs and are
  not modelled; what is modelled is what the method computes itself: the display
  names, the keys it owns, the directory suffix of a point and the text written to
  \<^verbatim>\<open>user_nl_<component>\<close>.
\<close>

definition create_clones_checks ::
  "'f namelist_lattice \<Rightarrow> bool \<Rightarrow> bool \<Rightarrow> bool \<Rightarrow> bool \<Rightarrow> error option" where
  "create_clones_checks st root_is_dir read_existing_clones overwrite clean_all =
     (if priv_lattice st = None then Some LatticeNotReadyError
      else if \<not> root_is_dir then Some RootCaseNotFoundError
      else if read_existing_clones \<and> (overwrite \<or> clean_all) then Some ReadExistingFlagsError
      else None)"

definition str_of_label :: "string option \<Rightarrow> string" where
  "str_of_label l = (case l of None \<Rightarrow> ''None'' | Some s \<Rightarrow> s)"

definition print_params :: "string list \<Rightarrow> int list \<Rightarrow> string option list \<Rightarrow> error + string list" where
  \<comment> \<open>\<^verbatim>\<open>print_params = np.array(params); print_params[np.where(mask)] = labels\<close>: the
      array holds strings as long as the longest name, so a longer label is cut; one
      label is broadcast, any other number of labels must match the positions\<close>
  "print_params params msk labels =
     (let w = fold max (map length params) 1;
          pos = filter (\<lambda>i. msk ! i \<noteq> 0) [0..<length msk];
          lab = map (\<lambda>l. take w (str_of_label l)) labels
      in if list_ex (\<lambda>i. length params \<le> i) pos then Inl PyIndexError
         else if length lab = length pos
         then Inr (fold (\<lambda>(i, l) ps. ps[i := l]) (zip pos lab) params)
         else if length lab = 1
         then Inr (fold (\<lambda>i ps. ps[i := hd lab]) pos params)
         else Inl NpValueError)"

definition all_params :: "'f namelist_lattice \<Rightarrow> string list \<Rightarrow> error + string list" where
  \<comment> \<open>the keys the lattice owns: the names of the fields that are not groups, then the
      member names of the groups\<close>
  "all_params st params =
     (case select_where params (map (\<lambda>m. 1 - m) (paramgroup_mask st)) of
        Inl e \<Rightarrow> Inl e
      | Inr singles \<Rightarrow>
          (case group_members st of
             Inl e \<Rightarrow> Inl e
           | Inr members \<Rightarrow> Inr (singles @ members)))"

text \<open>
  The items of \<^verbatim>\<open>list(values)\<close> for a record \<^verbatim>\<open>values = self._lattice[i]\<close> are
  NumPy scalars. \<^verbatim>\<open>np.str_\<close> derives from \<^verbatim>\<open>str\<close>; \<^verbatim>\<open>np.int64\<close> and
  \<^verbatim>\<open>np.float64\<close> do not derive from \<^verbatim>\<open>int\<close> (Python 3). \<open>PyInt\<close> is a Python
  integer, the only kind of object the test \<^verbatim>\<open>isinstance(x, int)\<close> accepts.
\<close>

datatype 'f pyobj = PyStr string | PyInt int | NpInt64 int | NpFloat64 'f

fun record_item :: "'f val \<Rightarrow> 'f pyobj" where
  "record_item (NpStr s) = PyStr s"
| "record_item (NpInt n) = NpInt64 n"
| "record_item (NpFloat x) = NpFloat64 x"

fun bit_length :: "nat \<Rightarrow> nat" where
  "bit_length n = (if n = 0 then 0 else Suc (bit_length (n div 2)))"

declare bit_length.simps [simp del]

definition round_half_even :: "nat \<Rightarrow> nat \<Rightarrow> nat" where
  \<comment> \<open>\<open>n / d\<close> rounded to the nearest integer, a tie to the even one\<close>
  "round_half_even n d =
     (let q = n div d; r = n mod d
      in if 2 * r > d \<or> (2 * r = d \<and> odd q) then q + 1 else q)"

definition float_of_nat :: "nat \<Rightarrow> nat option" where
  \<comment> \<open>\<^verbatim>\<open>float(n)\<close>: the double nearest to \<open>n\<close>, which is an integer again; \<open>None\<close> is
      the \<^verbatim>\<open>OverflowError\<close> of an integer too large for a double\<close>
  "float_of_nat n =
     (let e = bit_length n - 53; v = round_half_even n (2 ^ e) * 2 ^ e
      in if v < 2 ^ 1024 then Some v else None)"

definition exp_digits :: "nat \<Rightarrow> string" where
  "exp_digits e = (if e < 10 then CHR ''0'' # str_of_nat e else str_of_nat e)"

definition format_e :: "nat \<Rightarrow> string" where
  \<comment> \<open>\<^verbatim>\<open>'%e' % v\<close> for a double of integer value \<open>v\<close>: seven significant digits,
      rounded half to even, and an exponent of two digits at least\<close>
  "format_e v =
     (if v = 0 then ''0.000000e+00''
      else
        let nd = length (str_of_nat v);
            m0 = (if nd \<le> 7 then v * 10 ^ (7 - nd) else round_half_even v (10 ^ (nd - 7)));
            m = (if m0 = 10 ^ 7 then 10 ^ 6 else m0);
            ex = (if m0 = 10 ^ 7 then nd else nd - 1);
            ds = str_of_nat m
        in hd ds # CHR ''.'' # tl ds @ ''e+'' @ exp_digits ex)"

definition percent_e :: "int \<Rightarrow> error + string" where
  \<comment> \<open>\<^verbatim>\<open>'%e' % n\<close> for a Python integer\<close>
  "percent_e n =
     (case float_of_nat (nat \<bar>n\<bar>) of
        None \<Rightarrow> Inl PyOverflowError
      | Some v \<Rightarrow> Inr ((if n < 0 then ''-'' else []) @ format_e v))"

fun print_value :: "'f pyobj \<Rightarrow> error + 'f pyobj" where
  \<comment> \<open>one round of the loop over \<^verbatim>\<open>print_values\<close>\<close>
  "print_value (PyStr s) = Inr (PyStr (replace_char CHR '','' CHR ''_'' s))"
| "print_value (PyInt n) =
     (if n \<ge> 100000 then
        (case percent_e n of
           Inl e \<Rightarrow> Inl e
         | Inr t \<Rightarrow> Inr (PyStr (remove_char CHR ''+'' t)))
      else Inr (PyInt n))"
| "print_value x = Inr x"

fun print_values :: "'f pyobj list \<Rightarrow> error + 'f pyobj list" where
  "print_values [] = Inr []"
| "print_values (x # xs) =
     (case print_value x of
        Inl e \<Rightarrow> Inl e
      | Inr y \<Rightarrow> (case print_values xs of Inl e \<Rightarrow> Inl e | Inr ys \<Rightarrow> Inr (y # ys)))"

fun format_obj :: "'f float_ops \<Rightarrow> 'f pyobj \<Rightarrow> string" where
  \<comment> \<open>\<^verbatim>\<open>'{}'.format(x)\<close>\<close>
  "format_obj fo (PyStr s) = s"
| "format_obj fo (PyInt n) = str_of_int n"
| "format_obj fo (NpInt64 n) = str_of_int n"
| "format_obj fo (NpFloat64 x) = float_str fo x"

definition sfx_components :: "'f float_ops \<Rightarrow> string list \<Rightarrow> 'f pyobj list \<Rightarrow> string list" where
  \<comment> \<open>\<^verbatim>\<open>['{}_{}'.format(print_params[j], print_values[j]) for j in range(len(values))]\<close>\<close>
  "sfx_components fo pp pv = map (\<lambda>(p, v). p @ ''_'' @ format_obj fo v) (zip pp pv)"

definition clone_suffix ::
  "'f float_ops \<Rightarrow> string list option \<Rightarrow> string list \<Rightarrow> 'f recarray \<Rightarrow> nat \<Rightarrow> error + string" where
  \<comment> \<open>the suffix \<^verbatim>\<open>sfx\<close> of the point \<open>i\<close>; \<open>pp\<close> is \<^verbatim>\<open>print_params\<close>, \<open>clone_sfx\<close> the
      argument of that name after \<^verbatim>\<open>np.atleast_1d\<close>\<close>
  "clone_suffix fo clone_sfx pp L i =
     (case print_values (map record_item (rec_rows L ! i)) of
        Inl e \<Rightarrow> Inl e
      | Inr pv \<Rightarrow>
          (case clone_sfx of
             None \<Rightarrow> Inr (join ''__'' (sfx_components fo pp pv))
           | Some cs \<Rightarrow>
               if length cs \<noteq> 1 \<and> length cs \<noteq> length (rec_rows L) then Inl LengthMismatchError
               else if length cs > 1 then Inr (cs ! i)
               else Inr (cs ! 0)))"

definition new_case :: "string \<Rightarrow> string \<Rightarrow> string \<Rightarrow> string" where
  \<comment> \<open>\<^verbatim>\<open>'{}/{}__{}'.format(top_clone_dir, clone_prefix, sfx)\<close>\<close>
  "new_case top_clone_dir clone_prefix sfx = top_clone_dir @ ''/'' @ clone_prefix @ ''__'' @ sfx"

fun name_points ::
  "'f float_ops \<Rightarrow> string list option \<Rightarrow> string list \<Rightarrow> 'f recarray \<Rightarrow> string \<Rightarrow> string \<Rightarrow> nat list
     \<Rightarrow> 'f namelist_lattice \<Rightarrow> error option \<times> 'f namelist_lattice" where
  \<comment> \<open>the loop over the points when \<^verbatim>\<open>read_existing_clones\<close> is set: the case of each
      point is named and appended to \<^verbatim>\<open>clone_dirs\<close>, nothing else is done\<close>
  "name_points fo clone_sfx pp L topdir pre [] st = (None, st)"
| "name_points fo clone_sfx pp L topdir pre (i # is) st =
     (case clone_suffix fo clone_sfx pp L i of
        Inl e \<Rightarrow> (Some e, st)
      | Inr sfx \<Rightarrow>
          name_points fo clone_sfx pp L topdir pre is
            (st\<lparr>clone_dirs := clone_dirs st @ [new_case topdir pre sfx]\<rparr>))"

definition create_clones_read_existing ::
  "'f float_ops \<Rightarrow> string \<Rightarrow> bool \<Rightarrow> string option \<Rightarrow> string option \<Rightarrow> string list option
     \<Rightarrow> bool \<Rightarrow> bool \<Rightarrow> 'f namelist_lattice \<Rightarrow> error option \<times> 'f namelist_lattice" where
  \<comment> \<open>\<^verbatim>\<open>create_clones(root_case, top_clone_dir, clone_prefix=..., clone_sfx=...,
      overwrite=..., clean_all=..., read_existing_clones=True)\<close>, as far as the object
      is concerned\<close>
  "create_clones_read_existing fo root_case root_is_dir top_clone_dir clone_prefix clone_sfx
       overwrite clean_all st =
     (case create_clones_checks st root_is_dir True overwrite clean_all of
        Some e \<Rightarrow> (Some e, st)
      | None \<Rightarrow>
          (case priv_lattice st of
             None \<Rightarrow> (Some LatticeNotReadyError, st)
           | Some L \<Rightarrow>
               (case print_params (rec_names L) (paramgroup_mask st) (paramgroup_labels st) of
                  Inl e \<Rightarrow> (Some e, st)
                | Inr pp \<Rightarrow>
                    (case all_params st (rec_names L) of
                       Inl e \<Rightarrow> (Some e, st)
                     | Inr owned \<Rightarrow>
                         let topdir = (case top_clone_dir of
                                      None \<Rightarrow> join ''/'' (butlast (split_on CHR ''/'' root_case))
                                    | Some t \<Rightarrow> t);
                             pre = (case clone_prefix of
                                      None \<Rightarrow> last (split_on CHR ''/'' root_case)
                                    | Some p \<Rightarrow> p)
                         in name_points fo clone_sfx pp L topdir pre [0..<length (rec_rows L)] st))))"

subsection \<open>Writing the namelist file of a clone\<close>

text \<open>
  The file \<^verbatim>\<open>user_nl_<component>\<close> is a string. It is opened in text mode, so reading
  translates every line ending to a newline; on the systems the cases run on, writing
  stores a newline as it is.
\<close>

fun universal_newlines :: "string \<Rightarrow> string" where
  \<comment> \<open>what \<^verbatim>\<open>f.read()\<close> returns for the stored characters\<close>
  "universal_newlines [] = []"
| "universal_newlines [c] = (if c = carriage_return then [newline] else [c])"
| "universal_newlines (c # d # cs) =
     (if c = carriage_return \<and> d = newline then newline # universal_newlines cs
      else if c = carriage_return then newline # universal_newlines (d # cs)
      else c # universal_newlines (d # cs))"

fun readlines :: "string \<Rightarrow> string list" where
  \<comment> \<open>\<^verbatim>\<open>f.readlines()\<close>: the lines, each with its newline\<close>
  "readlines [] = []"
| "readlines (c # cs) =
     (if c = newline then [c] # readlines cs
      else (case readlines cs of [] \<Rightarrow> [[c]] | l # ls \<Rightarrow> (c # l) # ls))"

definition entry_param :: "string \<Rightarrow> string" where
  \<comment> \<open>\<^verbatim>\<open>''.join(e.split()).split('=')[0]\<close>\<close>
  "entry_param e = hd (split_on CHR ''='' (remove_ws e))"

definition purge :: "string list \<Rightarrow> string \<Rightarrow> string" where
  \<comment> \<open>the first \<^verbatim>\<open>with\<close> block: the entries whose parameter is not owned are written
      back, the rest of the file is cut off\<close>
  "purge owned content = concat (filter (\<lambda>e. entry_param e \<notin> set owned) (readlines content))"

definition marker :: string where
  "marker = ''! Following entries written by CESM_namelist_automator'' @ [newline]"

definition entry_line :: "string \<Rightarrow> string \<Rightarrow> string" where
  \<comment> \<open>\<^verbatim>\<open>'{} = {}\n'.format(k, v)\<close>\<close>
  "entry_line k v = k @ '' = '' @ v @ [newline]"

fun format_val :: "'f float_ops \<Rightarrow> 'f val \<Rightarrow> string" where
  \<comment> \<open>\<^verbatim>\<open>'{}'.format(values[j])\<close> for a field of the record\<close>
  "format_val fo (NpStr s) = s"
| "format_val fo (NpInt n) = str_of_int n"
| "format_val fo (NpFloat x) = float_str fo x"

fun write_group :: "string list \<Rightarrow> string list \<Rightarrow> string \<Rightarrow> error option \<times> string" where
  \<comment> \<open>the loop over the members of a group: a member without a value is an
      \<^verbatim>\<open>IndexError\<close> after the earlier members are written\<close>
  "write_group [] gv out = (None, out)"
| "write_group (p # ps) [] out = (Some PyIndexError, out)"
| "write_group (p # ps) (v # vs) out = write_group ps vs (out @ entry_line p v)"

fun write_slots ::
  "'f float_ops \<Rightarrow> 'f namelist_lattice \<Rightarrow> string list \<Rightarrow> 'f val list \<Rightarrow> nat list \<Rightarrow> string
     \<Rightarrow> error option \<times> string" where
  \<comment> \<open>the loop \<^verbatim>\<open>for j in range(len(params))\<close> of the second \<^verbatim>\<open>with\<close> block; a slot
      flagged in \<^verbatim>\<open>xml_mask\<close> goes to \<^verbatim>\<open>xmlchange\<close> and writes nothing to the file;
      reading a mask or the record past its end is an \<^verbatim>\<open>IndexError\<close>\<close>
  "write_slots fo st params vals [] out = (None, out)"
| "write_slots fo st params vals (j # js) out =
     (if \<not> j < length (paramgroup_mask st) then (Some PyIndexError, out)
      else if paramgroup_mask st ! j = 1 then
        (if \<not> j < length vals then (Some PyIndexError, out) else
         case vals ! j of
           NpStr s \<Rightarrow>
             let group_params = split_on CHR '','' (params ! j);
                 group_values = split_on CHR '','' s
             in if \<not> j < length (xml_mask st) then (Some PyIndexError, out)
                else if xml_mask st ! j = 1 then
                  (if length group_values < length group_params then (Some PyIndexError, out)
                   else write_slots fo st params vals js out)
                else
                  (case write_group group_params group_values out of
                     (Some e, out') \<Rightarrow> (Some e, out')
                   | (None, out') \<Rightarrow> write_slots fo st params vals js out')
         | _ \<Rightarrow> (Some PyAttributeError, out))
      else if \<not> j < length (xml_mask st) then (Some PyIndexError, out)
      else if \<not> j < length vals then (Some PyIndexError, out)
      else if xml_mask st ! j = 1 then write_slots fo st params vals js out
      else write_slots fo st params vals js (out @ entry_line (params ! j) (format_val fo (vals ! j))))"

definition edit_user_nl ::
  "'f float_ops \<Rightarrow> 'f namelist_lattice \<Rightarrow> string list \<Rightarrow> string list \<Rightarrow> 'f val list \<Rightarrow> string
     \<Rightarrow> error option \<times> string" where
  \<comment> \<open>the two \<^verbatim>\<open>with\<close> blocks for one point: \<open>params\<close> are the field names of the
      lattice, \<open>owned\<close> is \<^verbatim>\<open>all_params\<close>, \<open>vals\<close> the record of the point, \<open>stored\<close> the
      file. \<^verbatim>\<open>nl = f.read()\<close> follows \<^verbatim>\<open>f.truncate()\<close> at the end of the file and
      reads nothing\<close>
  "edit_user_nl fo st params owned vals stored =
     (let kept = purge owned (universal_newlines stored);
          nl = [];
          out = kept @ (if nl = [] \<or> last nl \<noteq> newline then [newline] else []) @ marker
      in write_slots fo st params vals [0..<length params] out)"

definition namelist_entries :: "string \<Rightarrow> string list" where
  \<comment> \<open>the lines of a namelist file other than the marker comment and empty lines\<close>
  "namelist_entries content = filter (\<lambda>e. e \<noteq> marker \<and> e \<noteq> [newline]) (readlines content)"

definition user_nl_ab :: "string \<Rightarrow> error option \<times> string" where
  \<comment> \<open>the editing of \<^verbatim>\<open>user_nl_eam\<close> for the point \<^verbatim>\<open>a = 1, b = 10\<close> of the registry of
      \<^verbatim>\<open>a\<close> and \<^verbatim>\<open>b\<close>, whose owned keys are \<^verbatim>\<open>a\<close> and \<^verbatim>\<open>b\<close>\<close>
  "user_nl_ab stored =
     edit_user_nl unit_float_ops (registry_ab False) (param_names (registry_ab False))
       [''a'', ''b''] [NpInt 1, NpInt 10] stored"

subsection \<open>Notions used in the proofs\<close>

definition complete_line :: "string \<Rightarrow> bool" where
  \<comment> \<open>a line that ends with its only newline\<close>
  "complete_line l = (l \<noteq> [] \<and> last l = newline \<and> newline \<notin> set (butlast l))"

definition owned_entry :: "string list \<Rightarrow> string \<Rightarrow> bool" where
  \<comment> \<open>a line \<^verbatim>\<open>k = v\<close> for an owned key and a value without a line break\<close>
  "owned_entry owned l =
     (\<exists>k v. l = entry_line k v \<and> k \<in> set owned \<and> newline \<notin> set v \<and> carriage_return \<notin> set v)"

section \<open>Lemmas\<close>

subsection \<open>The Cartesian product in grid order\<close>

lemma map_product_lists: "map (map f) (product_lists vs) = product_lists (map (map f) vs)"
proof (induction vs)
  case Nil
  then show ?case by simp
next
  case (Cons v vs)
  have "map (map f) (product_lists (v # vs)) =
        concat (map (\<lambda>x. map ((#) (f x)) (map (map f) (product_lists vs))) v)"
    by (simp add: map_concat comp_def)
  then show ?case by (simp add: Cons.IH comp_def)
qed

lemma length_product_lists: "length (product_lists vs) = prod_list (map length vs)"
proof (induction vs)
  case Nil
  then show ?case by simp
next
  case (Cons v vs)
  have "length (concat (map (\<lambda>x. map ((#) x) (product_lists vs)) v)) = length v * length (product_lists vs)"
    by (induction v) auto
  with Cons show ?case by simp
qed

lemma mset_concat_swap:
  "mset (concat (map (\<lambda>y. concat (map (\<lambda>x. f x y) xs)) ys)) =
   mset (concat (map (\<lambda>x. concat (map (\<lambda>y. f x y) ys)) xs))"
proof (induction ys)
  case Nil
  then show ?case by (induction xs) auto
next
  case (Cons y ys)
  have "mset (concat (map (\<lambda>x. concat (map (f x) (y # ys))) xs)) =
        mset (concat (map (\<lambda>x. f x y) xs)) + mset (concat (map (\<lambda>x. concat (map (f x) ys)) xs))"
    by (induction xs) auto
  with Cons show ?case by simp
qed

lemma meshgrid_points_order:
  "meshgrid_points (a # b # rest) =
     concat (map (\<lambda>y. concat (map (\<lambda>x. map (\<lambda>r. x # y # r) (product_lists rest)) a)) b)"
  by (simp add: meshgrid_points_def xy_swap_def map_concat comp_def)

lemma mset_meshgrid_points: "mset (meshgrid_points vs) = mset (product_lists vs)"
proof (cases vs)
  case Nil
  then show ?thesis by (simp add: meshgrid_points_def xy_swap_def)
next
  case (Cons a r)
  show ?thesis
  proof (cases r)
    case Nil
    with Cons show ?thesis by (simp add: meshgrid_points_def xy_swap_def comp_def)
  next
    case (Cons b rest)
    let ?F = "\<lambda>x y. map (\<lambda>r. x # y # r) (product_lists rest)"
    have "mset (meshgrid_points (a # b # rest)) =
          mset (concat (map (\<lambda>y. concat (map (\<lambda>x. ?F x y) a)) b))"
      by (simp only: meshgrid_points_order)
    also have "\<dots> = mset (concat (map (\<lambda>x. concat (map (\<lambda>y. ?F x y) b)) a))"
      by (rule mset_concat_swap)
    also have "\<dots> = mset (product_lists (a # b # rest))"
      by (simp add: map_concat comp_def)
    finally show ?thesis using Cons \<open>vs = a # r\<close> by simp
  qed
qed

lemma length_meshgrid_points: "length (meshgrid_points vs) = prod_list (map length vs)"
proof -
  have "length (meshgrid_points vs) = size (mset (meshgrid_points vs))" by simp
  also have "\<dots> = length (product_lists vs)" by (simp only: mset_meshgrid_points size_mset)
  finally show ?thesis by (simp add: length_product_lists)
qed

lemma map_meshgrid_points: "map (map f) (meshgrid_points vs) = meshgrid_points (map (map f) vs)"
proof -
  have sw: "map f (xy_swap p) = xy_swap (map f p)" for p :: "'b list"
    by (simp add: xy_swap_def split: list.splits)
  have sw2: "map (map f) (xy_swap ws) = xy_swap (map (map f) ws)" for ws :: "'b list list"
    by (simp add: xy_swap_def split: list.splits)
  have "map (map f) (meshgrid_points vs) = map xy_swap (map (map f) (product_lists (xy_swap vs)))"
    by (simp add: meshgrid_points_def sw comp_def)
  then show ?thesis
    by (simp add: meshgrid_points_def map_product_lists sw2)
qed

lemma length_promote: "map length (promote fo vs) = map length vs"
  by (simp add: promote_def comp_def)

lemma lattice_points_fill:
  "vs \<noteq> [] \<Longrightarrow> lattice_points fo False vs = Inr (meshgrid_points (promote fo vs))"
  by (simp add: lattice_points_def promote_def map_meshgrid_points)

lemma columns_points_nth:
  "i < length (hd vs) \<Longrightarrow> columns_points vs ! i = map (\<lambda>v. v ! i) vs"
  by (simp add: columns_points_def)

lemma map_columns_points:
  "vs \<noteq> [] \<Longrightarrow> all_same_length vs \<Longrightarrow>
     map (map f) (columns_points vs) = columns_points (map (map f) vs)"
  by (cases vs) (auto simp: columns_points_def all_same_length_def list_all_iff)

lemma select_indices_nths:
  "map ((!) xs) (filter P [0..<length xs]) = nths xs {i. P i}"
proof (induction xs rule: rev_induct)
  case Nil
  then show ?case by simp
next
  case (snoc x xs)
  have "map ((!) (xs @ [x])) (filter P [0..<length xs]) = map ((!) xs) (filter P [0..<length xs])"
    by (simp add: nth_append)
  with snoc show ?case by (simp add: nths_append)
qed

subsection \<open>What a call of \<^verbatim>\<open>expand\<close> can change\<close>

lemma check_name_scalar:
  "check_name st False labels nv i =
     (if fst nv ! i \<in> set (param_names st) then Inl DuplicateNameError else Inr nv)"
  by (simp add: check_name_def Let_def)

lemma check_names_scalar:
  "check_names st False labels js nv =
     (if list_ex (\<lambda>i. fst nv ! i \<in> set (param_names st)) js then Inl DuplicateNameError else Inr nv)"
  by (induction js) (simp_all add: check_name_scalar)

lemma check_name_length:
  "check_name st grp labels nv i = Inr nv' \<Longrightarrow> length (fst nv') = length (fst nv)"
  by (auto simp: check_name_def Let_def split: if_splits sum.splits)

lemma check_names_length:
  "check_names st grp labels js nv = Inr nv' \<Longrightarrow> length (fst nv') = length (fst nv)"
proof (induction js arbitrary: nv)
  case Nil
  then show ?case by simp
next
  case (Cons i js)
  then show ?case
    by (auto split: sum.splits dest: check_name_length)
qed

lemma build_lattice_cases:
  "build_lattice fo st = (r, st') \<Longrightarrow>
     (r = Some NpValueError \<and> st' = st) \<or>
     (r = Some CardinalityMismatchError \<and> st' = st \<and> nofill st) \<or>
     (r = None \<and> (\<exists>L. st' = st\<lparr>priv_lattice := Some L\<rparr>))"
  by (auto simp: build_lattice_def lattice_points_def fromarrays_def split: sum.splits if_splits)

lemma insert_sampled_cases:
  "insert_sampled fo lg ps st = (r, st') \<Longrightarrow>
     (r = None \<or> r = Some NpValueError) \<and>
     (\<exists>vs. st' = st\<lparr>param_vectors := param_vectors st @ vs\<rparr>)"
proof (induction ps arbitrary: st)
  case Nil
  have "st = st\<lparr>param_vectors := param_vectors st @ []\<rparr>" by simp
  with Nil show ?case by (metis insert_sampled.simps(1) prod.inject)
next
  case (Cons p ps)
  obtain lim n where p: "p = (lim, n)" by (cases p)
  show ?case
  proof (cases "n < 0")
    case True
    have "st = st\<lparr>param_vectors := param_vectors st @ []\<rparr>" by simp
    moreover from True Cons.prems p have "r = Some NpValueError" "st' = st" by auto
    ultimately show ?thesis by metis
  next
    case False
    with Cons.prems p Cons.IH show ?thesis
      by (fastforce simp: Let_def)
  qed
qed

lemma flag_and_build_cases:
  "flag_and_build fo a n st = (r, st') \<Longrightarrow>
     param_names st' = param_names st \<and> param_vectors st' = param_vectors st \<and>
     nofill st' = nofill st \<and>
     (r = None \<longrightarrow> priv_lattice st' \<noteq> None) \<and>
     (r \<noteq> None \<longrightarrow> priv_lattice st' = priv_lattice st \<and>
        (r = Some NpValueError \<or> r = Some CardinalityMismatchError \<and> nofill st))"
  by (auto simp: flag_and_build_def Let_def dest!: build_lattice_cases split: if_splits)

lemma expand_early_error:
  assumes "expand fo a st = (Some e, st')" and "e \<noteq> NpValueError" and "e \<noteq> CardinalityMismatchError"
  shows "st' = st"
  using assms
  by (auto simp: expand_def split: sum.splits option.splits prod.splits if_splits
        dest!: flag_and_build_cases insert_sampled_cases)

lemma expand_success:
  assumes "expand fo a st = (None, st')"
  shows "priv_lattice st' \<noteq> None \<and>
         (\<exists>ns. length ns = length (names a) \<and> param_names st' = param_names st @ ns)"
proof -
  from assms obtain ns vo where
    c: "check_names st (is_group a) (atleast_1d_labels (group_labels a))
          [0..<length (names a)] (names a, pvalues a) = Inr (ns, vo)"
    by (auto simp: expand_def split: sum.splits)
  from check_names_length [OF c] have len: "length ns = length (names a)" by simp
  from assms c obtain st1 where
    f: "flag_and_build fo a (length ns) st1 = (None, st')" and n: "param_names st1 = param_names st @ ns"
    by (auto simp: expand_def split: option.splits prod.splits if_splits sum.splits
          dest!: insert_sampled_cases)
  from flag_and_build_cases [OF f] n len show ?thesis by auto
qed

lemma check_name_not_cardinality:
  "check_name st grp labels nv i \<noteq> Inl CardinalityMismatchError"
  by (auto simp: check_name_def Let_def clean_value_def group_members_def select_where_def
        np_ravel_def split: if_splits sum.splits option.splits pyvalues.splits val.splits)

lemma check_names_not_cardinality:
  "check_names st grp labels js nv \<noteq> Inl CardinalityMismatchError"
  by (induction js arbitrary: nv) (auto simp: check_name_not_cardinality split: sum.splits)

lemma first_error_in: "first_error es = Some e \<Longrightarrow> Some e \<in> set es"
  by (induction es rule: first_error.induct) auto

lemma check_arity_not_cardinality: "check_arity ns rows \<noteq> Some CardinalityMismatchError"
proof
  assume "check_arity ns rows = Some CardinalityMismatchError"
  then have "Some CardinalityMismatchError \<in>
      set (concat (map (\<lambda>(n, row). map (arity_cell n) row) (zip ns rows)))"
    unfolding check_arity_def by (rule first_error_in)
  then show False
    by (auto simp: arity_cell_def split: val.splits if_splits)
qed

lemma expand_cardinality:
  assumes "expand fo a st = (Some CardinalityMismatchError, st')"
  shows "nofill st \<and> priv_lattice st' = priv_lattice st \<and>
         (\<exists>ns. length ns = length (names a) \<and> param_names st' = param_names st @ ns)"
proof -
  from assms obtain ns vo where
    c: "check_names st (is_group a) (atleast_1d_labels (group_labels a))
          [0..<length (names a)] (names a, pvalues a) = Inr (ns, vo)"
    by (auto simp: expand_def check_names_not_cardinality split: sum.splits)
  from check_names_length [OF c] have len: "length ns = length (names a)" by simp
  from assms c obtain st1 where
    f: "flag_and_build fo a (length ns) st1 = (Some CardinalityMismatchError, st')"
    and n: "param_names st1 = param_names st @ ns"
    and l: "priv_lattice st1 = priv_lattice st" and nf: "nofill st1 = nofill st"
    by (auto simp: expand_def atleast_2d_def quote_check_def check_arity_not_cardinality
          split: option.splits prod.splits if_splits sum.splits pyvalues.splits
          dest!: insert_sampled_cases)
  from flag_and_build_cases [OF f] n l nf len show ?thesis by auto
qed

lemma list_ex_nth: "list_ex (\<lambda>i. xs ! i \<in> S) [0..<length xs] = list_ex (\<lambda>x. x \<in> S) xs"
proof -
  have "(\<exists>i < length xs. xs ! i \<in> S) \<longleftrightarrow> (\<exists>x \<in> set xs. x \<in> S)"
    by (metis in_set_conv_nth)
  then show ?thesis by (simp add: list_ex_iff Bex_def)
qed

subsection \<open>Names that are checked, and names that are not\<close>

text \<open>
  A scalar name equal to a registered name is rejected, and so is a group with a member
  of a registered group. A member of a new group is not compared with the registered
  scalar names.
\<close>

lemma registered_name_rejected:
  assumes "\<not> is_group a" and "list_ex (\<lambda>n. n \<in> set (param_names st)) (names a)"
  shows "expand fo a st = (Some DuplicateNameError, st)"
  using assms by (simp add: expand_def check_names_scalar list_ex_nth)

subsection \<open>The example registries, evaluated\<close>

lemmas eval_defs = expand_def values_call_def group_call_def both_call_def bare_call_def init_def
    unit_float_ops_def check_name_def
    atleast_2d_def promote_def common_dtype_def quote_check_def flag_and_build_def build_lattice_def
    lattice_points_def all_same_length_def fromarrays_def field_names_def strip_def is_space_def
    default_names_def columns_points_def meshgrid_points_def xy_swap_def clean_value_def remove_ws_def
    atleast_1d_labels_def group_members_def select_where_def np_ravel_def check_arity_def arity_cell_def

lemma registry_a_eq:
  "registry_a nf =
     \<lparr>component = ''eam'', nofill = nf, param_vectors = [[NpInt 1, NpInt 2]],
      param_names = [''a''], xml_mask = [0], paramgroup_mask = [0],
      paramgroup_labels = [], clone_dirs = [],
      priv_lattice = Some \<lparr>rec_names = [''a''], rec_rows = [[NpInt 1], [NpInt 2]]\<rparr>\<rparr>"
  by (cases nf) (simp_all add: registry_a_def eval_defs Let_def)

lemma registry_ab_eq:
  "registry_ab nf =
     \<lparr>component = ''eam'', nofill = nf,
      param_vectors = [[NpInt 1, NpInt 2], [NpInt 10, NpInt 20]],
      param_names = [''a'', ''b''], xml_mask = [0, 0], paramgroup_mask = [0, 0],
      paramgroup_labels = [], clone_dirs = [],
      priv_lattice = Some \<lparr>rec_names = [''a'', ''b''],
         rec_rows = (if nf then [[NpInt 1, NpInt 10], [NpInt 2, NpInt 20]]
                     else [[NpInt 1, NpInt 10], [NpInt 2, NpInt 10],
                           [NpInt 1, NpInt 20], [NpInt 2, NpInt 20]])\<rparr>\<rparr>"
  by (cases nf) (simp_all add: registry_ab_def registry_a_eq eval_defs Let_def)

lemma registry_grp_eq:
  "registry_grp =
     \<lparr>component = ''eam'', nofill = False, param_vectors = [[NpStr ''1,1,1'', NpStr ''2,2,2'']],
      param_names = [''p1,p2,p3''], xml_mask = [0], paramgroup_mask = [1],
      paramgroup_labels = [Some ''grp''], clone_dirs = [],
      priv_lattice = Some \<lparr>rec_names = [''p1,p2,p3''],
         rec_rows = [[NpStr ''1,1,1''], [NpStr ''2,2,2'']]\<rparr>\<rparr>"
  by (simp add: registry_grp_def eval_defs Let_def)

lemma registry_mismatch_eq:
  "expand unit_float_ops (values_call ''b'' [NpInt 10, NpInt 20, NpInt 30]) (registry_a True) =
     (Some CardinalityMismatchError,
      \<lparr>component = ''eam'', nofill = True,
       param_vectors = [[NpInt 1, NpInt 2], [NpInt 10, NpInt 20, NpInt 30]],
       param_names = [''a'', ''b''], xml_mask = [0, 0], paramgroup_mask = [0, 0],
       paramgroup_labels = [], clone_dirs = [],
       priv_lattice = Some \<lparr>rec_names = [''a''], rec_rows = [[NpInt 1], [NpInt 2]]\<rparr>\<rparr>)"
  by (simp add: registry_a_eq eval_defs Let_def)

lemma registry_big_eq:
  "registry_big =
     \<lparr>component = ''eam'', nofill = False,
      param_vectors = [[NpInt 150000, NpInt 200000], [NpInt 1, NpInt 2]],
      param_names = [''a'', ''b''], xml_mask = [0, 0], paramgroup_mask = [0, 0],
      paramgroup_labels = [], clone_dirs = [],
      priv_lattice = Some \<lparr>rec_names = [''a'', ''b''],
         rec_rows = [[NpInt 150000, NpInt 1], [NpInt 200000, NpInt 1],
                     [NpInt 150000, NpInt 2], [NpInt 200000, NpInt 2]]\<rparr>\<rparr>"
  by (simp add: registry_big_def eval_defs Let_def)

lemma group_member_of_group_rejected:
  "expand unit_float_ops (group_call ''p4,p2'' [''1,1'', ''2,2''] ''grp2'') registry_grp =
     (Some DuplicateNameError, registry_grp)"
  by (simp add: registry_grp_eq eval_defs Let_def)

lemma group_member_of_scalar_accepted:
  "fst (expand unit_float_ops (group_call ''p1,p2'' [''1,1'', ''2,2''] ''grp'')
         (snd (expand unit_float_ops (values_call ''p2'' [NpStr ''x'', NpStr ''y'']) (init ''eam'' False)))) =
     None"
  by (simp add: eval_defs Let_def)

subsection \<open>Rendering values in a suffix\<close>

lemmas naming_defs = str_of_int_def str_of_nat.simps format_e_def float_of_nat_def round_half_even_def
  bit_length.simps exp_digits_def percent_e_def replace_char_def remove_char_def Let_def
  print_params_def all_params_def select_where_def group_members_def np_ravel_def all_same_length_def
  clone_suffix_def sfx_components_def new_case_def create_clones_read_existing_def create_clones_checks_def
  str_of_label_def

text \<open>
  A Python integer of six digits or more would be rendered in exponential form; the items
  of a record are never Python integers, so the loop over \<^verbatim>\<open>print_values\<close> only
  replaces the commas of strings.
\<close>

lemma python_integer_suffix:
  "print_value (PyInt 150000) = Inr (PyStr ''1.500000e05'')"
  by (simp add: naming_defs)

lemma record_items_not_python_integers:
  "print_values (map record_item row) = Inr (map (\<lambda>v. case v of NpStr s \<Rightarrow> PyStr (replace_char CHR '','' CHR ''_'' s) | _ \<Rightarrow> record_item v) row)"
  by (induction row) (auto split: val.splits)

subsection \<open>The lines of a namelist file\<close>

lemma complete_lineI: "newline \<notin> set b \<Longrightarrow> complete_line (b @ [newline])"
  by (simp add: complete_line_def)

lemma complete_lineE: "complete_line l \<Longrightarrow> \<exists>b. l = b @ [newline] \<and> newline \<notin> set b"
  by (metis complete_line_def append_butlast_last_id)

lemma readlines_no_newline: "newline \<notin> set t \<Longrightarrow> readlines t = (if t = [] then [] else [t])"
  by (induction t) (auto split: list.splits)

lemma readlines_line: "newline \<notin> set b \<Longrightarrow> readlines (b @ newline # s) = (b @ [newline]) # readlines s"
  by (induction b) (auto split: list.splits)

lemma readlines_complete:
  "list_all complete_line ls \<Longrightarrow> newline \<notin> set t \<Longrightarrow>
     readlines (concat ls @ t) = ls @ (if t = [] then [] else [t])"
proof (induction ls)
  case Nil
  then show ?case by (simp add: readlines_no_newline)
next
  case (Cons l ls)
  from Cons.prems obtain b where l: "l = b @ [newline]" and b: "newline \<notin> set b"
    by (auto dest: complete_lineE)
  from Cons have "readlines (concat ls @ t) = ls @ (if t = [] then [] else [t])" by simp
  with l b show ?case by (simp add: readlines_line)
qed

lemma readlines_decompose:
  "\<exists>ls t. s = concat ls @ t \<and> list_all complete_line ls \<and> newline \<notin> set t \<and>
      readlines s = ls @ (if t = [] then [] else [t])"
proof (induction s rule: length_induct)
  case (1 s)
  show ?case
  proof (cases "newline \<in> set s")
    case False
    then have "s = concat [] @ s \<and> list_all complete_line [] \<and> newline \<notin> set s \<and>
      readlines s = [] @ (if s = [] then [] else [s])"
      by (simp add: readlines_no_newline)
    then show ?thesis by blast
  next
    case True
    then obtain b r where s: "s = b @ newline # r" and b: "newline \<notin> set b"
      by (meson split_list_first)
    then have "length r < length s" by simp
    with 1 obtain ls t where r: "r = concat ls @ t" "list_all complete_line ls" "newline \<notin> set t"
      "readlines r = ls @ (if t = [] then [] else [t])"
      by blast
    from s b r have "s = concat ((b @ [newline]) # ls) @ t \<and>
        list_all complete_line ((b @ [newline]) # ls) \<and> newline \<notin> set t \<and>
        readlines s = ((b @ [newline]) # ls) @ (if t = [] then [] else [t])"
      by (simp add: readlines_line complete_lineI)
    then show ?thesis by blast
  qed
qed

lemma concat_readlines: "concat (readlines s) = s"
proof -
  obtain ls t where "s = concat ls @ t" "readlines s = ls @ (if t = [] then [] else [t])"
    using readlines_decompose [of s] by blast
  then show ?thesis by simp
qed

lemma set_purge: "set (purge owned s) \<subseteq> set s"
proof -
  have "set (purge owned s) \<subseteq> set (concat (readlines s))"
    by (auto simp: purge_def)
  then show ?thesis by (simp add: concat_readlines)
qed

lemma universal_newlines_no_cr: "carriage_return \<notin> set (universal_newlines s)"
  by (induction s rule: universal_newlines.induct)
     (auto simp: carriage_return_def newline_def)

lemma universal_newlines_id: "carriage_return \<notin> set s \<Longrightarrow> universal_newlines s = s"
  by (induction s rule: universal_newlines.induct) auto

lemma remove_ws_append_newline: "remove_ws (l @ [newline]) = remove_ws l"
  by (simp add: remove_ws_def is_space_def newline_def)

lemma entry_param_append_newline: "entry_param (l @ [newline]) = entry_param l"
  by (simp add: entry_param_def remove_ws_append_newline)

lemma entry_param_blank: "entry_param [newline] = []"
  by (simp add: entry_param_def remove_ws_def is_space_def newline_def)

lemma split_on_nonempty: "split_on d s \<noteq> []"
  by (induction s) (auto split: list.splits)

lemma hd_split_on: "hd (split_on d s) = takeWhile (\<lambda>c. c \<noteq> d) s"
  by (induction s) (auto simp: split_on_nonempty split: list.splits)

lemma entry_param_entry_line:
  assumes "\<forall>c \<in> set k. \<not> is_space c \<and> c \<noteq> CHR ''=''"
  shows "entry_param (entry_line k v) = k"
proof -
  have k: "remove_ws k = k"
    using assms by (simp add: remove_ws_def filter_id_conv)
  have app: "remove_ws (a @ b) = remove_ws a @ remove_ws b" for a b
    by (simp add: remove_ws_def)
  have eq: "remove_ws '' = '' = ''=''"
    by (simp add: remove_ws_def is_space_def)
  have "remove_ws (entry_line k v) = k @ CHR ''='' # remove_ws (v @ [newline])"
    unfolding entry_line_def by (simp only: app k eq) simp
  moreover have "takeWhile (\<lambda>c. c \<noteq> CHR ''='') (k @ CHR ''='' # r) = k" for r
    using assms by (simp add: takeWhile_append)
  ultimately show ?thesis
    by (simp add: entry_param_def hd_split_on)
qed

lemma split_on_parts: "p \<in> set (split_on d s) \<Longrightarrow> set p \<subseteq> set s"
proof (induction s arbitrary: p)
  case Nil
  then show ?case by simp
next
  case (Cons c cs)
  show ?case
  proof (cases "c = d")
    case True
    with Cons show ?thesis by auto
  next
    case False
    obtain w ws where sp: "split_on d cs = w # ws"
      by (cases "split_on d cs") (auto simp: split_on_nonempty)
    with False Cons.prems have "p = c # w \<or> p \<in> set ws" by auto
    with sp Cons.IH [of w] Cons.IH [of p] show ?thesis by auto
  qed
qed

lemma marker_line: "complete_line marker \<and> carriage_return \<notin> set marker \<and> marker \<noteq> [newline]"
  by (simp add: marker_def complete_line_def newline_def carriage_return_def)

lemma is_space_line_breaks: "is_space newline \<and> is_space carriage_return"
  by (simp add: is_space_def newline_def carriage_return_def)

subsection \<open>The keys owned and the lines written\<close>

lemma select_where_nth:
  assumes "select_where xs msk = Inr ys" and "j < length xs" and "j < length msk" and "msk ! j \<noteq> 0"
  shows "xs ! j \<in> set ys"
proof -
  from assms(1) have ys: "ys = map fst (filter (\<lambda>p. snd p \<noteq> 0) (zip xs msk))"
    by (simp add: select_where_def split: if_splits)
  from assms(2,3) have "(xs ! j, msk ! j) \<in> set (zip xs msk)"
    by (metis length_zip min_less_iff_conj nth_mem nth_zip)
  with assms(4) have "(xs ! j, msk ! j) \<in> set (filter (\<lambda>p. snd p \<noteq> 0) (zip xs msk))"
    by simp
  then show ?thesis unfolding ys by force
qed

lemma np_ravel_set: "np_ravel xss = Inr ys \<Longrightarrow> xs \<in> set xss \<Longrightarrow> set xs \<subseteq> set ys"
  by (auto simp: np_ravel_def split: if_splits)

lemma all_params_single:
  assumes "all_params st params = Inr owned" and "j < length params"
    and "j < length (paramgroup_mask st)" and "paramgroup_mask st ! j \<noteq> 1"
  shows "params ! j \<in> set owned"
proof -
  from assms(1) obtain singles members where
    s: "select_where params (map (\<lambda>m. 1 - m) (paramgroup_mask st)) = Inr singles"
    and o: "owned = singles @ members"
    by (auto simp: all_params_def split: sum.splits)
  from select_where_nth [OF s assms(2)] assms(3,4) have "params ! j \<in> set singles" by simp
  with o show ?thesis by simp
qed

lemma all_params_group:
  assumes "all_params st params = Inr owned" and "j < length (param_names st)"
    and "j < length (paramgroup_mask st)" and "paramgroup_mask st ! j \<noteq> 0"
  shows "set (split_on CHR '','' (param_names st ! j)) \<subseteq> set owned"
proof -
  from assms(1) obtain singles members gs where
    g: "select_where (param_names st) (paramgroup_mask st) = Inr gs"
    and r: "np_ravel (map (split_on CHR '','') gs) = Inr members"
    and o: "owned = singles @ members"
    by (auto simp: all_params_def group_members_def split: sum.splits)
  from select_where_nth [OF g assms(2,3,4)] have "param_names st ! j \<in> set gs" .
  then have "split_on CHR '','' (param_names st ! j) \<in> set (map (split_on CHR '','') gs)" by simp
  from np_ravel_set [OF r this] o show ?thesis by auto
qed

lemma write_group_lines:
  assumes "write_group gp gv out = (None, out')" and "set gp \<subseteq> set owned"
    and "\<forall>v \<in> set gv. newline \<notin> set v \<and> carriage_return \<notin> set v"
  shows "\<exists>lw. out' = out @ concat lw \<and> list_all (owned_entry owned) lw"
  using assms
proof (induction gp gv out rule: write_group.induct)
  case (1 gv out)
  then have "out' = out @ concat [] \<and> list_all (owned_entry owned) []" by simp
  then show ?case by blast
next
  case (2 p ps out)
  then show ?case by simp
next
  case (3 p ps v vs out)
  then obtain lw where lw: "out' = (out @ entry_line p v) @ concat lw" "list_all (owned_entry owned) lw"
    by auto
  from 3 have "owned_entry owned (entry_line p v)"
    by (auto simp: owned_entry_def)
  with lw have "out' = out @ concat (entry_line p v # lw) \<and> list_all (owned_entry owned) (entry_line p v # lw)"
    by simp
  then show ?case by blast
qed

lemma write_group_prefix:
  "write_group gp gv (a @ b) = (fst (write_group gp gv b), a @ snd (write_group gp gv b))"
proof (induction gp arbitrary: gv b)
  case Nil
  then show ?case by simp
next
  case (Cons p ps)
  show ?case
  proof (cases gv)
    case Nil
    then show ?thesis by simp
  next
    case (Cons v vs)
    with Cons.IH [of vs "b @ entry_line p v"] show ?thesis by simp
  qed
qed

lemma write_slots_prefix:
  "write_slots fo st params vals js (a @ b) =
     (fst (write_slots fo st params vals js b), a @ snd (write_slots fo st params vals js b))"
proof (induction js arbitrary: b)
  case Nil
  then show ?case by simp
next
  case (Cons j js)
  note IH = Cons.IH
  show ?case
  proof (cases "j < length (paramgroup_mask st)")
    case False
    then show ?thesis by simp
  next
    case m: True
    show ?thesis
    proof (cases "paramgroup_mask st ! j = 1")
      case g: True
      show ?thesis
      proof (cases "j < length vals")
        case False
        with m g show ?thesis by simp
      next
        case v: True
        show ?thesis
        proof (cases "vals ! j")
          case (NpStr s)
          let ?gp = "split_on CHR '','' (params ! j)"
          let ?gv = "split_on CHR '','' s"
          show ?thesis
          proof (cases "j < length (xml_mask st) \<and> xml_mask st ! j \<noteq> 1")
            case False
            with m g v NpStr IH [of b] show ?thesis by (auto simp: Let_def)
          next
            case True
            obtain r w where w: "write_group ?gp ?gv b = (r, w)" by (cases "write_group ?gp ?gv b")
            with write_group_prefix [of ?gp ?gv a b] have w': "write_group ?gp ?gv (a @ b) = (r, a @ w)"
              by simp
            show ?thesis
            proof (cases r)
              case None
              with m g v NpStr True w w' IH [of w] show ?thesis by (simp add: Let_def)
            next
              case (Some e)
              with m g v NpStr True w w' show ?thesis by (simp add: Let_def)
            qed
          qed
        next
          case (NpInt n)
          with m g v show ?thesis by simp
        next
          case (NpFloat x)
          with m g v show ?thesis by simp
        qed
      qed
    next
      case s: False
      show ?thesis
      proof (cases "j < length (xml_mask st) \<and> j < length vals")
        case False
        with m s show ?thesis by auto
      next
        case True
        with m s IH [of b] IH [of "b @ entry_line (params ! j) (format_val fo (vals ! j))"]
        show ?thesis by simp
      qed
    qed
  qed
qed

lemma write_slots_from_empty:
  "write_slots fo st params vals js x =
     (fst (write_slots fo st params vals js []), x @ snd (write_slots fo st params vals js []))"
  using write_slots_prefix [of fo st params vals js x "[]"] by simp

lemma write_slots_lines:
  assumes "write_slots fo st params vals js [] = (None, w)"
    and keys: "\<forall>j \<in> set js. j < length (paramgroup_mask st) \<longrightarrow>
                 (if paramgroup_mask st ! j = 1
                  then set (split_on CHR '','' (params ! j)) \<subseteq> set owned
                  else params ! j \<in> set owned)"
    and vals: "\<forall>v \<in> set vals. \<forall>c \<in> set (format_val fo v). c \<noteq> newline \<and> c \<noteq> carriage_return"
  shows "\<exists>lw. w = concat lw \<and> list_all (owned_entry owned) lw"
  using assms(1) keys
proof (induction js arbitrary: w)
  case Nil
  then have "w = concat [] \<and> list_all (owned_entry owned) []" by simp
  then show ?case by blast
next
  case (Cons j js)
  let ?rest = "write_slots fo st params vals js []"
  have IH: "\<exists>lw. w' = concat lw \<and> list_all (owned_entry owned) lw" if "?rest = (None, w')" for w'
    using Cons.IH [OF that] Cons.prems(2) by simp
  from Cons.prems(1) have m: "j < length (paramgroup_mask st)"
    by (auto split: if_splits)
  show ?case
  proof (cases "paramgroup_mask st ! j = 1")
    case g: True
    from Cons.prems(1) m g have v: "j < length vals"
      by (auto split: if_splits)
    from Cons.prems(1) m g v obtain s where s: "vals ! j = NpStr s"
      by (cases "vals ! j") auto
    let ?gp = "split_on CHR '','' (params ! j)"
    let ?gv = "split_on CHR '','' s"
    from Cons.prems(1) m g v s have x: "j < length (xml_mask st)"
      by (auto simp: Let_def split: if_splits)
    show ?thesis
    proof (cases "xml_mask st ! j = 1")
      case True
      with Cons.prems(1) m g v s x have "?rest = (None, w)"
        by (auto simp: Let_def split: if_splits)
      then show ?thesis by (rule IH)
    next
      case False
      obtain r g' where wg: "write_group ?gp ?gv [] = (r, g')" by (cases "write_group ?gp ?gv []")
      from Cons.prems(1) m g v s x False wg have r: "r = None"
        by (cases r) (auto simp: Let_def)
      with Cons.prems(1) m g v s x False wg have "write_slots fo st params vals js g' = (None, w)"
        by (auto simp: Let_def)
      with write_slots_from_empty [of fo st params vals js g']
      obtain w' where rest: "?rest = (None, w')" and w: "w = g' @ w'"
        by (cases ?rest) auto
      from IH [OF rest] obtain lw where lw: "w' = concat lw" "list_all (owned_entry owned) lw"
        by blast
      from vals v s have "\<forall>c \<in> set s. c \<noteq> newline \<and> c \<noteq> carriage_return"
        by (metis format_val.simps(1) nth_mem)
      then have gv: "\<forall>p \<in> set ?gv. newline \<notin> set p \<and> carriage_return \<notin> set p"
        using split_on_parts by fastforce
      from Cons.prems(2) m g have gp: "set ?gp \<subseteq> set owned" by simp
      from write_group_lines [OF _ gp gv, of "[]" g'] wg r
      obtain lg where lg: "g' = concat lg" "list_all (owned_entry owned) lg"
        by auto
      from w lw lg have "w = concat (lg @ lw) \<and> list_all (owned_entry owned) (lg @ lw)"
        by simp
      then show ?thesis by blast
    qed
  next
    case s: False
    from Cons.prems(1) m s have x: "j < length (xml_mask st)" and v: "j < length vals"
      by (auto split: if_splits)
    show ?thesis
    proof (cases "xml_mask st ! j = 1")
      case True
      with Cons.prems(1) m s x v have "?rest = (None, w)"
        by auto
      then show ?thesis by (rule IH)
    next
      case False
      let ?l = "entry_line (params ! j) (format_val fo (vals ! j))"
      from Cons.prems(1) m s x v False have "write_slots fo st params vals js ?l = (None, w)"
        by simp
      with write_slots_from_empty [of fo st params vals js ?l]
      obtain w' where rest: "?rest = (None, w')" and w: "w = ?l @ w'"
        by (cases ?rest) auto
      from IH [OF rest] obtain lw where lw: "w' = concat lw" "list_all (owned_entry owned) lw"
        by blast
      from Cons.prems(2) m s have "params ! j \<in> set owned" by simp
      moreover from vals v have "newline \<notin> set (format_val fo (vals ! j))"
        "carriage_return \<notin> set (format_val fo (vals ! j))"
        by (metis nth_mem)+
      ultimately have "owned_entry owned ?l"
        by (auto simp: owned_entry_def)
      with w lw have "w = concat (?l # lw) \<and> list_all (owned_entry owned) (?l # lw)"
        by simp
      then show ?thesis by blast
    qed
  qed
qed

lemma owned_entry_line:
  assumes "owned_entry owned l"
    and clean: "\<forall>k \<in> set owned. k \<noteq> [] \<and> (\<forall>c \<in> set k. \<not> is_space c \<and> c \<noteq> CHR ''='')"
  shows "complete_line l \<and> carriage_return \<notin> set l \<and> entry_param l \<in> set owned"
proof -
  from assms(1) obtain k v where l: "l = entry_line k v" and k: "k \<in> set owned"
    and v: "newline \<notin> set v" "carriage_return \<notin> set v"
    by (auto simp: owned_entry_def)
  from clean k have ck: "\<forall>c \<in> set k. \<not> is_space c \<and> c \<noteq> CHR ''=''" by blast
  with is_space_line_breaks have nk: "newline \<notin> set k" "carriage_return \<notin> set k" by blast+
  have "l = (k @ '' = '' @ v) @ [newline]" by (simp add: l entry_line_def)
  moreover have "newline \<notin> set (k @ '' = '' @ v)"
    using nk v by (simp add: newline_def)
  ultimately have "complete_line l" by (metis complete_lineI)
  moreover have "carriage_return \<notin> set l"
    using nk v by (simp add: l entry_line_def carriage_return_def newline_def)
  moreover have "entry_param l \<in> set owned"
    using entry_param_entry_line [OF ck] k l by simp
  ultimately show ?thesis by blast
qed

lemmas file_defs = edit_user_nl_def purge_def entry_param_def remove_ws_def is_space_def marker_def
  entry_line_def newline_def carriage_return_def str_of_int_def str_of_nat.simps

lemma user_nl_ab_once:
  "user_nl_ab ''x = 5'' =
     (None, ''x = 5'' @ newline # marker @ ''a = 1'' @ newline # ''b = 10'' @ [newline])"
  by (simp add: user_nl_ab_def registry_ab_eq file_defs)

lemma user_nl_ab_twice:
  "user_nl_ab (''x = 5'' @ newline # marker @ ''a = 1'' @ newline # ''b = 10'' @ [newline]) =
     (None, ''x = 5'' @ newline # marker @ newline # marker @
            ''a = 1'' @ newline # ''b = 10'' @ [newline])"
  by (simp add: user_nl_ab_def registry_ab_eq file_defs)

section \<open>The claims\<close>

text \<open>
  C1. Adding a dimension whose name is already in the registry, be it a scalar name or
  a member of a registered group, should fail with \<open>DuplicateNameError\<close>. The check of
  a scalar name looks at \<^verbatim>\<open>param_names\<close> only, where a group is stored under its
  joined name: after the group \<^verbatim>\<open>p1,p2,p3\<close> is registered, the scalar dimension
  \<^verbatim>\<open>p2\<close> is accepted and registered.
\<close>

theorem nested_name_accepted:
  "fst (expand unit_float_ops (values_call ''p2'' [NpStr ''x'', NpStr ''y'']) registry_grp) = None \<and>
   param_names (snd (expand unit_float_ops (values_call ''p2'' [NpStr ''x'', NpStr ''y'']) registry_grp)) =
     [''p1,p2,p3'', ''p2'']"
  by (simp add: registry_grp_eq eval_defs Let_def)

text \<open>
  C2 (as amended). Let the owned keys be the keys of the registry, none of them empty,
  with a blank or an equals sign, or equal to the key of the marker comment, and let
  no value of the point hold a line break. If editing the file for the point succeeds,
  editing the result for the same point succeeds again and yields the same entries:
  the lines other than the marker comment and empty lines are the same, in the same
  order (the lines of owned keys once, all other entries as they were). The content is
  not the same: the second application writes the marker comment once more.
\<close>

theorem edit_user_nl_twice_same_entries:
  assumes own: "all_params st (param_names st) = Inr owned"
    and clean: "\<forall>k \<in> set owned. k \<noteq> [] \<and> (\<forall>c \<in> set k. \<not> is_space c \<and> c \<noteq> CHR ''='')"
    and mk: "entry_param marker \<notin> set owned"
    and vals: "\<forall>v \<in> set vals. \<forall>c \<in> set (format_val fo v). c \<noteq> newline \<and> c \<noteq> carriage_return"
    and first: "edit_user_nl fo st (param_names st) owned vals stored = (None, once)"
  shows "\<exists>twice. edit_user_nl fo st (param_names st) owned vals once = (None, twice) \<and>
           namelist_entries twice = namelist_entries once \<and>
           count_list (readlines twice) marker = Suc (count_list (readlines once) marker) \<and>
           twice \<noteq> once"
proof -
  let ?params = "param_names st"
  let ?js = "[0..<length ?params]"
  define keep where "keep = (\<lambda>e. entry_param e \<notin> set owned)"
  define C where "C = universal_newlines stored"
  obtain ls t where C: "C = concat ls @ t" and ls: "list_all complete_line ls"
    and t: "newline \<notin> set t" and rC: "readlines C = ls @ (if t = [] then [] else [t])"
    using readlines_decompose [of C] by blast
  define t' where "t' = (if t \<noteq> [] \<and> keep t then t else [])"
  define LA where "LA = filter keep ls @ [t' @ [newline]]"
  have K: "purge owned C = concat (filter keep ls) @ t'"
    by (simp add: purge_def rC t'_def keep_def [symmetric])
  have out0: "purge owned C @ newline # marker = concat LA @ marker"
    by (simp add: K LA_def)
  \<comment> \<open>what the first application wrote\<close>
  obtain r W where W: "write_slots fo st ?params vals ?js [] = (r, W)"
    by (cases "write_slots fo st ?params vals ?js []")
  from first have f: "write_slots fo st ?params vals ?js (concat LA @ marker) = (None, once)"
    by (simp add: edit_user_nl_def C_def [symmetric] out0)
  with write_slots_from_empty [of fo st ?params vals ?js "concat LA @ marker"] W
  have r: "r = None" and once: "once = (concat LA @ marker) @ W"
    by simp_all
  have keys: "\<forall>j \<in> set ?js. j < length (paramgroup_mask st) \<longrightarrow>
                 (if paramgroup_mask st ! j = 1
                  then set (split_on CHR '','' (?params ! j)) \<subseteq> set owned
                  else ?params ! j \<in> set owned)"
    using all_params_single [OF own] all_params_group [OF own] by simp
  from write_slots_lines [OF _ keys vals] W r obtain lw where
    lw: "W = concat lw" "list_all (owned_entry owned) lw"
    by blast
  have lwp: "\<forall>l \<in> set lw. complete_line l \<and> carriage_return \<notin> set l \<and> \<not> keep l"
    using lw(2) owned_entry_line [OF _ clean] by (auto simp: list_all_iff keep_def)
  \<comment> \<open>the lines of the file after the first application\<close>
  have t'n: "newline \<notin> set t'" using t by (simp add: t'_def)
  have LAc: "list_all complete_line LA"
    using ls t'n by (auto simp: LA_def list_all_iff complete_lineI)
  have all1: "list_all complete_line (LA @ [marker] @ lw)"
    using LAc marker_line lwp by (auto simp: list_all_iff)
  have once': "once = concat (LA @ [marker] @ lw)"
    by (simp add: once lw(1))
  have r1: "readlines once = LA @ [marker] @ lw"
    using readlines_complete [OF all1, of "[]"] by (simp add: once')
  \<comment> \<open>no carriage return is left, so the second reading changes nothing\<close>
  have "carriage_return \<notin> set C" by (simp add: C_def universal_newlines_no_cr)
  then have "carriage_return \<notin> set (purge owned C)"
    using set_purge [of owned C] by blast
  moreover have "concat LA @ marker = purge owned C @ newline # marker"
    by (simp add: out0)
  moreover have "carriage_return \<noteq> newline"
    by (simp add: carriage_return_def newline_def)
  ultimately have "carriage_return \<notin> set once"
    using marker_line lwp by (auto simp: once lw(1))
  then have u: "universal_newlines once = once" by (rule universal_newlines_id)
  \<comment> \<open>the purge of the second application\<close>
  have kt: "keep (t' @ [newline])"
  proof (cases "t' = []")
    case True
    with clean show ?thesis by (auto simp: keep_def entry_param_blank)
  next
    case False
    then have "keep t'" by (auto simp: t'_def split: if_splits)
    then show ?thesis by (simp add: keep_def entry_param_append_newline)
  qed
  have fLA: "filter keep LA = LA" by (simp add: LA_def kt)
  have fm: "keep marker" using mk by (simp add: keep_def)
  have flw: "filter keep lw = []" using lwp by (simp add: filter_empty_conv)
  have p2: "purge owned once = concat LA @ marker"
    by (simp add: purge_def r1 keep_def [symmetric] fLA fm flw)
  define twice where "twice = concat (LA @ [marker] @ [[newline]] @ [marker] @ lw)"
  have "edit_user_nl fo st ?params owned vals once =
          write_slots fo st ?params vals ?js ((concat LA @ marker) @ newline # marker)"
    by (simp add: edit_user_nl_def u p2)
  also have "\<dots> = (None, twice)"
    using write_slots_from_empty [of fo st ?params vals ?js "(concat LA @ marker) @ newline # marker"]
      W r lw(1) by (simp add: twice_def)
  finally have second: "edit_user_nl fo st ?params owned vals once = (None, twice)" .
  have all2: "list_all complete_line (LA @ [marker] @ [[newline]] @ [marker] @ lw)"
    using all1 by (simp add: complete_line_def)
  have r2: "readlines twice = LA @ [marker] @ [[newline]] @ [marker] @ lw"
    using readlines_complete [OF all2, of "[]"] by (simp add: twice_def)
  have e: "namelist_entries twice = namelist_entries once"
    by (simp add: namelist_entries_def r1 r2)
  have c: "count_list (readlines twice) marker = Suc (count_list (readlines once) marker)"
    using marker_line by (auto simp: r1 r2)
  have "length twice \<noteq> length once"
    by (simp add: twice_def once')
  then have "twice \<noteq> once" by auto
  with second e c show ?thesis by blast
qed

theorem edit_user_nl_twice_same_entries_witness:
  "all_params (registry_ab False) (param_names (registry_ab False)) = Inr [''a'', ''b''] \<and>
   user_nl_ab ''x = 5'' =
     (None, ''x = 5'' @ newline # marker @ ''a = 1'' @ newline # ''b = 10'' @ [newline]) \<and>
   (\<exists>twice. user_nl_ab (snd (user_nl_ab ''x = 5'')) = (None, twice) \<and>
      namelist_entries twice = namelist_entries (snd (user_nl_ab ''x = 5'')) \<and>
      namelist_entries twice = [''x = 5'' @ [newline], ''a = 1'' @ [newline], ''b = 10'' @ [newline]])"
proof -
  let ?st = "registry_ab False"
  let ?once = "''x = 5'' @ newline # marker @ ''a = 1'' @ newline # ''b = 10'' @ [newline]"
  have own: "all_params ?st (param_names ?st) = Inr [''a'', ''b'']"
    by (simp add: registry_ab_eq all_params_def select_where_def group_members_def np_ravel_def)
  have clean: "\<forall>k \<in> set [''a'', ''b'']. k \<noteq> [] \<and> (\<forall>c \<in> set k. \<not> is_space c \<and> c \<noteq> CHR ''='')"
    by (simp add: is_space_def)
  have mk: "entry_param marker \<notin> set [''a'', ''b'']"
    by (simp add: file_defs)
  have vals: "\<forall>v \<in> set [NpInt 1, NpInt 10].
      \<forall>c \<in> set (format_val unit_float_ops v). c \<noteq> newline \<and> c \<noteq> carriage_return"
    by (simp add: file_defs)
  have first: "edit_user_nl unit_float_ops ?st (param_names ?st) [''a'', ''b''] [NpInt 1, NpInt 10] ''x = 5'' =
      (None, ?once)"
    using user_nl_ab_once by (simp add: user_nl_ab_def)
  from edit_user_nl_twice_same_entries [OF own clean mk vals first]
  obtain twice where t: "user_nl_ab ?once = (None, twice)"
    and e: "namelist_entries twice = namelist_entries ?once"
    unfolding user_nl_ab_def by blast
  have "namelist_entries ?once = [''x = 5'' @ [newline], ''a = 1'' @ [newline], ''b = 10'' @ [newline]]"
    by (simp add: namelist_entries_def marker_def newline_def)
  with own t e show ?thesis
    by (simp add: user_nl_ab_once)
qed

text \<open>
  The claim as stated fails: for the point \<^verbatim>\<open>a = 1, b = 10\<close> and the file \<^verbatim>\<open>x = 5\<close>, the
  second application leaves a file with two marker comments.
\<close>

theorem marker_written_again:
  "snd (user_nl_ab ''x = 5'') =
     ''x = 5'' @ newline # marker @ ''a = 1'' @ newline # ''b = 10'' @ [newline] \<and>
   snd (user_nl_ab (snd (user_nl_ab ''x = 5''))) =
     ''x = 5'' @ newline # marker @ newline # marker @ ''a = 1'' @ newline # ''b = 10'' @ [newline] \<and>
   snd (user_nl_ab (snd (user_nl_ab ''x = 5''))) \<noteq> snd (user_nl_ab ''x = 5'')"
proof -
  let ?once = "''x = 5'' @ newline # marker @ ''a = 1'' @ newline # ''b = 10'' @ [newline]"
  let ?twice = "''x = 5'' @ newline # marker @ newline # marker @ ''a = 1'' @ newline # ''b = 10'' @ [newline]"
  have a: "snd (user_nl_ab ''x = 5'') = ?once"
    by (simp only: user_nl_ab_once snd_conv)
  have b: "snd (user_nl_ab ?once) = ?twice"
    by (simp only: user_nl_ab_twice snd_conv)
  have "length ?twice \<noteq> length ?once" by simp
  then have c: "?twice \<noteq> ?once" by metis
  show ?thesis by (simp only: a b c simp_thms)
qed

text \<open>
  C3. In fill mode, for a registry of two dimensions or more, the lattice is built
  exactly when the field names are distinct, and then it is the Cartesian product of
  the value sequences (cast to their common type): as many points as the product of
  the cardinalities, the same points as \<open>product_lists\<close> enumerates, in the order in
  which the first dimension varies faster than the second and the last one fastest, and
  a rebuild stores the same lattice again. For \<^verbatim>\<open>a = [1, 2]\<close> and \<^verbatim>\<open>b = [10, 20]\<close>
  the points are (1,10), (2,10), (1,20), (2,20).
\<close>

theorem fill_lattice_cartesian_product:
  assumes fill: "\<not> nofill st" and dims: "2 \<le> length (param_vectors st)"
  shows "(fst (build_lattice fo st) = None \<longleftrightarrow>
            distinct (field_names (param_names st) (length (param_vectors st)))) \<and>
         (\<forall>st'. build_lattice fo st = (None, st') \<longrightarrow>
            (\<exists>L. st' = st\<lparr>priv_lattice := Some L\<rparr> \<and>
               length (rec_rows L) = prod_list (map length (param_vectors st)) \<and>
               mset (rec_rows L) = mset (product_lists (promote fo (param_vectors st))) \<and>
               (\<forall>a b rest. promote fo (param_vectors st) = a # b # rest \<longrightarrow>
                  rec_rows L =
                    concat (map (\<lambda>y. concat (map (\<lambda>x. map (\<lambda>r. x # y # r) (product_lists rest)) a)) b)) \<and>
               build_lattice fo st' = (None, st')))"
proof -
  let ?vs = "param_vectors st"
  let ?ns = "field_names (param_names st) (length ?vs)"
  from dims have ne: "?vs \<noteq> []" by auto
  have pts: "lattice_points fo (nofill st) ?vs = Inr (meshgrid_points (promote fo ?vs))"
    using fill ne by (simp add: lattice_points_fill)
  have ok: "fst (build_lattice fo st) = None \<longleftrightarrow> distinct ?ns"
    by (simp add: build_lattice_def pts fromarrays_def)
  have rest: "\<exists>L. st' = st\<lparr>priv_lattice := Some L\<rparr> \<and>
               length (rec_rows L) = prod_list (map length ?vs) \<and>
               mset (rec_rows L) = mset (product_lists (promote fo ?vs)) \<and>
               (\<forall>a b rest. promote fo ?vs = a # b # rest \<longrightarrow>
                  rec_rows L =
                    concat (map (\<lambda>y. concat (map (\<lambda>x. map (\<lambda>r. x # y # r) (product_lists rest)) a)) b)) \<and>
               build_lattice fo st' = (None, st')"
    if b: "build_lattice fo st = (None, st')" for st'
  proof -
    define L :: "'a recarray" where
      "L = \<lparr>rec_names = ?ns, rec_rows = meshgrid_points (promote fo ?vs)\<rparr>"
    from b have d: "distinct ?ns" and s: "st' = st\<lparr>priv_lattice := Some L\<rparr>"
      by (auto simp: build_lattice_def pts fromarrays_def L_def split: if_splits)
    have len: "length (rec_rows L) = prod_list (map length ?vs)"
      by (simp add: L_def length_meshgrid_points length_promote)
    have ms: "mset (rec_rows L) = mset (product_lists (promote fo ?vs))"
      by (simp add: L_def mset_meshgrid_points)
    have ord: "rec_rows L =
        concat (map (\<lambda>y. concat (map (\<lambda>x. map (\<lambda>r. x # y # r) (product_lists rest)) a)) b)"
      if "promote fo ?vs = a # b # rest" for a b rest
      using that by (simp add: L_def meshgrid_points_order)
    have again: "build_lattice fo st' = (None, st')"
      using d by (simp add: s build_lattice_def pts fromarrays_def L_def)
    from s len ms ord again show ?thesis by blast
  qed
  from ok rest show ?thesis by blast
qed

theorem fill_lattice_cartesian_product_witness:
  "\<not> nofill (registry_ab False) \<and> 2 \<le> length (param_vectors (registry_ab False)) \<and>
   (\<exists>L. build_lattice unit_float_ops (registry_ab False) =
           (None, (registry_ab False)\<lparr>priv_lattice := Some L\<rparr>) \<and>
        length (rec_rows L) = 2 * 2 \<and>
        rec_rows L = [[NpInt 1, NpInt 10], [NpInt 2, NpInt 10], [NpInt 1, NpInt 20], [NpInt 2, NpInt 20]])"
proof -
  let ?st = "registry_ab False"
  have fill: "\<not> nofill ?st" and dims: "2 \<le> length (param_vectors ?st)"
    by (simp_all add: registry_ab_eq)
  have vs: "promote unit_float_ops (param_vectors ?st) = [[NpInt 1, NpInt 2], [NpInt 10, NpInt 20]]"
    by (simp add: registry_ab_eq promote_def common_dtype_def)
  have ok: "fst (build_lattice unit_float_ops ?st) = None"
    using fill_lattice_cartesian_product [OF fill dims, where fo = unit_float_ops]
    by (simp add: registry_ab_eq field_names_def strip_def is_space_def default_names_def)
  then obtain st' where b: "build_lattice unit_float_ops ?st = (None, st')"
    by (cases "build_lattice unit_float_ops ?st") auto
  with fill_lattice_cartesian_product [OF fill dims, where fo = unit_float_ops]
  obtain L where "st' = ?st\<lparr>priv_lattice := Some L\<rparr>"
    and "length (rec_rows L) = prod_list (map length (param_vectors ?st))"
    and "\<forall>a b rest. promote unit_float_ops (param_vectors ?st) = a # b # rest \<longrightarrow>
           rec_rows L = concat (map (\<lambda>y. concat (map (\<lambda>x. map (\<lambda>r. x # y # r) (product_lists rest)) a)) b)"
    by blast
  with vs b fill dims show ?thesis
    by (auto simp: registry_ab_eq)
qed

text \<open>
  C4. In no-fill mode the lattice of a registry with a dimension is built only when
  all value sequences have one cardinality: otherwise the build fails with
  \<open>CardinalityMismatchError\<close> and changes nothing. When they all have the cardinality
  \<open>n\<close> the build does not fail in this way (it succeeds exactly when the field names
  are distinct), and the lattice it stores has \<open>n\<close> points, the point \<open>i\<close> holding the
  value \<open>i\<close> of every dimension (cast to the common type). For \<^verbatim>\<open>a = [1, 2]\<close> and
  \<^verbatim>\<open>b = [10, 20]\<close> the points are (1,10) and (2,20).
\<close>

theorem nofill_lattice_is_zip:
  assumes nf: "nofill st" and ne: "param_vectors st \<noteq> []"
  shows "((\<exists>v \<in> set (param_vectors st). \<exists>w \<in> set (param_vectors st). length v \<noteq> length w) \<longrightarrow>
            build_lattice fo st = (Some CardinalityMismatchError, st)) \<and>
         ((\<forall>v \<in> set (param_vectors st). length v = n) \<longrightarrow>
            fst (build_lattice fo st) \<noteq> Some CardinalityMismatchError \<and>
            (fst (build_lattice fo st) = None \<longleftrightarrow>
               distinct (field_names (param_names st) (length (param_vectors st)))) \<and>
            (\<forall>st'. build_lattice fo st = (None, st') \<longrightarrow>
               (\<exists>L. st' = st\<lparr>priv_lattice := Some L\<rparr> \<and>
                    length (rec_rows L) = n \<and>
                    (\<forall>i < n. rec_rows L ! i = map (\<lambda>v. v ! i) (promote fo (param_vectors st))))))"
proof (intro conjI impI)
  let ?vs = "param_vectors st"
  assume "\<exists>v \<in> set ?vs. \<exists>w \<in> set ?vs. length v \<noteq> length w"
  then obtain v w where "v \<in> set ?vs" "w \<in> set ?vs" "length v \<noteq> length w"
    by blast
  then have "\<exists>u \<in> set ?vs. length u \<noteq> length (hd ?vs)"
    by metis
  then have "\<not> all_same_length ?vs"
    by (auto simp: all_same_length_def list_all_iff)
  then show "build_lattice fo st = (Some CardinalityMismatchError, st)"
    using nf ne by (simp add: build_lattice_def lattice_points_def)
next
  let ?vs = "param_vectors st"
  let ?ns = "field_names (param_names st) (length ?vs)"
  assume h: "\<forall>v \<in> set ?vs. length v = n"
  from h ne have hd: "length (hd ?vs) = n" by (cases ?vs) auto
  from h hd have same: "all_same_length ?vs"
    by (auto simp: all_same_length_def list_all_iff)
  have hdp: "length (hd (promote fo ?vs)) = n"
    using ne hd by (cases ?vs) (auto simp: promote_def)
  have pts: "lattice_points fo (nofill st) ?vs = Inr (columns_points (promote fo ?vs))"
    using nf ne same by (simp add: lattice_points_def promote_def map_columns_points)
  show "fst (build_lattice fo st) \<noteq> Some CardinalityMismatchError"
    by (simp add: build_lattice_def pts fromarrays_def)
  show "fst (build_lattice fo st) = None \<longleftrightarrow> distinct ?ns"
    by (simp add: build_lattice_def pts fromarrays_def)
  show "\<forall>st'. build_lattice fo st = (None, st') \<longrightarrow>
               (\<exists>L. st' = st\<lparr>priv_lattice := Some L\<rparr> \<and>
                    length (rec_rows L) = n \<and>
                    (\<forall>i < n. rec_rows L ! i = map (\<lambda>v. v ! i) (promote fo (param_vectors st))))"
  proof (intro allI impI)
    fix st'
    assume b: "build_lattice fo st = (None, st')"
    define L :: "'a recarray" where
      "L = \<lparr>rec_names = ?ns, rec_rows = columns_points (promote fo ?vs)\<rparr>"
    from b have s: "st' = st\<lparr>priv_lattice := Some L\<rparr>"
      by (auto simp: build_lattice_def pts fromarrays_def L_def split: if_splits)
    have len: "length (rec_rows L) = n"
      by (simp add: L_def columns_points_def hdp)
    have nth: "\<forall>i < n. rec_rows L ! i = map (\<lambda>v. v ! i) (promote fo ?vs)"
      by (simp add: L_def columns_points_nth hdp)
    from s len nth show "\<exists>L. st' = st\<lparr>priv_lattice := Some L\<rparr> \<and>
                    length (rec_rows L) = n \<and>
                    (\<forall>i < n. rec_rows L ! i = map (\<lambda>v. v ! i) (promote fo (param_vectors st)))"
      by blast
  qed
qed

theorem nofill_lattice_is_zip_witness:
  "nofill (registry_ab True) \<and> param_vectors (registry_ab True) \<noteq> [] \<and>
   build_lattice unit_float_ops registry_mismatch = (Some CardinalityMismatchError, registry_mismatch) \<and>
   (\<exists>L. build_lattice unit_float_ops (registry_ab True) =
           (None, (registry_ab True)\<lparr>priv_lattice := Some L\<rparr>) \<and>
        length (rec_rows L) = 2 \<and>
        rec_rows L ! 0 = [NpInt 1, NpInt 10] \<and> rec_rows L ! 1 = [NpInt 2, NpInt 20])"
proof -
  let ?st = "registry_ab True"
  have nf: "nofill ?st" and ne: "param_vectors ?st \<noteq> []"
    by (simp_all add: registry_ab_eq)
  have m: "registry_mismatch =
     \<lparr>component = ''eam'', nofill = True,
       param_vectors = [[NpInt 1, NpInt 2], [NpInt 10, NpInt 20, NpInt 30]],
       param_names = [''a'', ''b''], xml_mask = [0, 0], paramgroup_mask = [0, 0],
       paramgroup_labels = [], clone_dirs = [],
       priv_lattice = Some \<lparr>rec_names = [''a''], rec_rows = [[NpInt 1], [NpInt 2]]\<rparr>\<rparr>"
    by (simp add: registry_mismatch_def registry_mismatch_eq)
  have nf': "nofill registry_mismatch" and ne': "param_vectors registry_mismatch \<noteq> []"
    by (simp_all add: m)
  have "[NpInt 1, NpInt 2] \<in> set (param_vectors registry_mismatch)"
    and "[NpInt 10, NpInt 20, NpInt 30] \<in> set (param_vectors registry_mismatch)"
    by (simp_all add: m)
  moreover have "length [NpInt 1, NpInt 2 :: unit val] \<noteq> length [NpInt 10, NpInt 20, NpInt 30 :: unit val]"
    by simp
  ultimately have diff: "\<exists>v \<in> set (param_vectors registry_mismatch).
               \<exists>w \<in> set (param_vectors registry_mismatch). length v \<noteq> length w"
    by blast
  from nofill_lattice_is_zip [OF nf' ne', where fo = unit_float_ops] diff
  have c1: "build_lattice unit_float_ops registry_mismatch = (Some CardinalityMismatchError, registry_mismatch)"
    by blast
  have same: "\<forall>v \<in> set (param_vectors ?st). length v = 2"
    and d: "distinct (field_names (param_names ?st) (length (param_vectors ?st)))"
    by (simp_all add: registry_ab_eq field_names_def strip_def is_space_def default_names_def)
  note z = nofill_lattice_is_zip [OF nf ne, where n = 2 and fo = unit_float_ops]
  from z same d have "fst (build_lattice unit_float_ops ?st) = None" by blast
  then obtain st' where b: "build_lattice unit_float_ops ?st = (None, st')"
    by (cases "build_lattice unit_float_ops ?st") auto
  with z same obtain L where "st' = ?st\<lparr>priv_lattice := Some L\<rparr>"
    and "length (rec_rows L) = 2"
    and "\<forall>i < 2. rec_rows L ! i = map (\<lambda>v. v ! i) (promote unit_float_ops (param_vectors ?st))"
    by blast
  moreover have "promote unit_float_ops (param_vectors ?st) = [[NpInt 1, NpInt 2], [NpInt 10, NpInt 20]]"
    by (simp add: registry_ab_eq promote_def common_dtype_def)
  ultimately have "\<exists>L. build_lattice unit_float_ops ?st = (None, ?st\<lparr>priv_lattice := Some L\<rparr>) \<and>
        length (rec_rows L) = 2 \<and>
        rec_rows L ! 0 = [NpInt 1, NpInt 10] \<and> rec_rows L ! 1 = [NpInt 2, NpInt 20]"
    using b by auto
  with nf ne c1 show ?thesis by blast
qed

text \<open>
  C5. A numeric value of 100000 or more should appear in the directory suffix in
  exponential form without the plus sign. The loop over \<^verbatim>\<open>print_values\<close> does that
  for Python integers only, and the values of a lattice point are NumPy scalars: for
  the registry of \<^verbatim>\<open>a = [150000, 200000]\<close> and \<^verbatim>\<open>b = [1, 2]\<close> the cases are named with
  the plain decimal numbers.
\<close>

theorem large_integer_suffix_is_decimal:
  "clone_dirs (snd (create_clones_read_existing unit_float_ops ''/cases/root'' True None None None
      False False registry_big)) =
     [''/cases/root__a_150000__b_1'', ''/cases/root__a_200000__b_1'',
      ''/cases/root__a_150000__b_2'', ''/cases/root__a_200000__b_2'']"
  by (simp add: registry_big_eq naming_defs unit_float_ops_def)

text \<open>
  C6 (as amended). An error raised by the checks that \<^verbatim>\<open>expand\<close> makes on its
  arguments (every error but the \<^verbatim>\<open>ValueError\<close> of NumPy and the cardinality
  mismatch) leaves the object as it was. A \<open>CardinalityMismatchError\<close> is raised in
  no-fill mode only, by the rebuild at the end of the call: the lattice stays as it
  was, but the names of the call are registered.
\<close>

theorem validation_errors_before_registration:
  assumes "expand fo a st = (Some e, st')"
  shows "(e \<noteq> CardinalityMismatchError \<and> e \<noteq> NpValueError \<longrightarrow> st' = st) \<and>
         (e = CardinalityMismatchError \<longrightarrow>
            nofill st \<and> priv_lattice st' = priv_lattice st \<and>
            (\<exists>ns. length ns = length (names a) \<and> param_names st' = param_names st @ ns))"
  using assms expand_early_error expand_cardinality by blast

theorem validation_errors_before_registration_witness:
  "expand unit_float_ops (values_call ''a'' [NpInt 3]) (registry_ab False) =
     (Some DuplicateNameError, registry_ab False) \<and>
   fst (expand unit_float_ops (values_call ''b'' [NpInt 10, NpInt 20, NpInt 30]) (registry_a True)) =
     Some CardinalityMismatchError \<and>
   priv_lattice (snd (expand unit_float_ops (values_call ''b'' [NpInt 10, NpInt 20, NpInt 30]) (registry_a True))) =
     priv_lattice (registry_a True)"
proof -
  have d: "expand unit_float_ops (values_call ''a'' [NpInt 3]) (registry_ab False) =
     (Some DuplicateNameError, snd (expand unit_float_ops (values_call ''a'' [NpInt 3]) (registry_ab False)))"
    by (simp add: registry_ab_eq eval_defs Let_def)
  from validation_errors_before_registration [OF d]
  have c1: "snd (expand unit_float_ops (values_call ''a'' [NpInt 3]) (registry_ab False)) = registry_ab False"
    by simp
  have m: "expand unit_float_ops (values_call ''b'' [NpInt 10, NpInt 20, NpInt 30]) (registry_a True) =
     (Some CardinalityMismatchError,
      snd (expand unit_float_ops (values_call ''b'' [NpInt 10, NpInt 20, NpInt 30]) (registry_a True)))"
    by (simp add: registry_mismatch_eq)
  from validation_errors_before_registration [OF m]
  have c2: "priv_lattice (snd (expand unit_float_ops (values_call ''b'' [NpInt 10, NpInt 20, NpInt 30]) (registry_a True))) =
     priv_lattice (registry_a True)"
    by simp
  from d c1 m c2 show ?thesis by (simp add: prod_eq_iff)
qed

text \<open>
  The claim as stated fails: in no-fill mode, \<^verbatim>\<open>expand('b', values=[10, 20, 30])\<close> after
  \<^verbatim>\<open>expand('a', values=[1, 2])\<close> raises the cardinality mismatch and leaves \<^verbatim>\<open>b\<close> and
  its values in the registry.
\<close>

theorem cardinality_error_after_registration:
  "fst (expand unit_float_ops (values_call ''b'' [NpInt 10, NpInt 20, NpInt 30]) (registry_a True)) =
     Some CardinalityMismatchError \<and>
   param_names (registry_a True) = [''a''] \<and>
   param_names (snd (expand unit_float_ops (values_call ''b'' [NpInt 10, NpInt 20, NpInt 30]) (registry_a True))) =
     [''a'', ''b''] \<and>
   param_vectors (snd (expand unit_float_ops (values_call ''b'' [NpInt 10, NpInt 20, NpInt 30]) (registry_a True))) =
     [[NpInt 1, NpInt 2], [NpInt 10, NpInt 20, NpInt 30]]"
  by (simp add: registry_mismatch_eq) (simp add: registry_a_eq)

text \<open>
  C7. The property \<^verbatim>\<open>lattice\<close> fails with \<open>LatticeNotReadyError\<close> when fewer than two
  names are registered; with two names or more it returns the stored lattice, which
  after a successful build is the lattice of the points just built.
\<close>

theorem lattice_property_two_dimensions:
  "(length (param_names st) < 2 \<longrightarrow> lattice_property st = Inl LatticeNotReadyError) \<and>
   (2 \<le> length (param_names st) \<longrightarrow> lattice_property st = Inr (priv_lattice st)) \<and>
   (2 \<le> length (param_names st) \<longrightarrow> build_lattice fo st = (None, st') \<longrightarrow>
      (\<exists>L. lattice_property st' = Inr (Some L) \<and>
           lattice_points fo (nofill st) (param_vectors st) = Inr (rec_rows L)))"
proof (intro conjI impI)
  assume "length (param_names st) < 2"
  then show "lattice_property st = Inl LatticeNotReadyError"
    by (simp add: lattice_property_def)
next
  assume "2 \<le> length (param_names st)"
  then show "lattice_property st = Inr (priv_lattice st)"
    by (simp add: lattice_property_def)
next
  assume n: "2 \<le> length (param_names st)" and b: "build_lattice fo st = (None, st')"
  from b obtain pts L where p: "lattice_points fo (nofill st) (param_vectors st) = Inr pts"
    and f: "fromarrays (param_names st) (length (param_vectors st)) pts = Inr L"
    and s: "st' = st\<lparr>priv_lattice := Some L\<rparr>"
    by (auto simp: build_lattice_def split: sum.splits)
  from f have "rec_rows L = pts"
    by (auto simp: fromarrays_def split: if_splits)
  with n p s show "\<exists>L. lattice_property st' = Inr (Some L) \<and>
           lattice_points fo (nofill st) (param_vectors st) = Inr (rec_rows L)"
    by (simp add: lattice_property_def)
qed

theorem lattice_property_two_dimensions_witness:
  "lattice_property (registry_a False) = Inl LatticeNotReadyError \<and>
   lattice_property (registry_ab False) = Inr (priv_lattice (registry_ab False)) \<and>
   (\<exists>L. lattice_property (registry_ab False) = Inr (Some L) \<and> length (rec_rows L) = 4)"
proof -
  have one: "length (param_names (registry_a False)) < 2"
    and two: "2 \<le> length (param_names (registry_ab False))"
    by (simp_all add: registry_a_eq registry_ab_eq)
  have b: "build_lattice unit_float_ops (registry_ab False) = (None, registry_ab False)"
    by (simp add: registry_ab_eq eval_defs)
  from lattice_property_two_dimensions [where st = "registry_a False"] one
  have c1: "lattice_property (registry_a False) = Inl LatticeNotReadyError" by blast
  from lattice_property_two_dimensions [where st = "registry_ab False" and fo = unit_float_ops and st' = "registry_ab False"] two b
  have c2: "lattice_property (registry_ab False) = Inr (priv_lattice (registry_ab False))"
    and c3: "\<exists>L. lattice_property (registry_ab False) = Inr (Some L) \<and>
           lattice_points unit_float_ops (nofill (registry_ab False)) (param_vectors (registry_ab False)) = Inr (rec_rows L)"
    by blast+
  have "lattice_points unit_float_ops (nofill (registry_ab False)) (param_vectors (registry_ab False)) =
        Inr [[NpInt 1, NpInt 10], [NpInt 2, NpInt 10], [NpInt 1, NpInt 20], [NpInt 2, NpInt 20]]"
    by (simp add: registry_ab_eq eval_defs)
  with c3 have "\<exists>L. lattice_property (registry_ab False) = Inr (Some L) \<and> length (rec_rows L) = 4"
    by fastforce
  with c1 c2 show ?thesis by blast
qed

text \<open>
  C8. Filtering a stored lattice with a mask of its length keeps the field names and
  the points at the positions where the mask is true, in their order: a subsequence of
  the points. A mask that is true everywhere returns the lattice itself, a mask that
  is false everywhere a lattice without points.
\<close>

theorem filter_lattice_subsequence:
  assumes lat: "priv_lattice st = Some L" and len: "length msk = length (rec_rows L)"
  shows "\<exists>L'. filter_lattice msk st = (None, st\<lparr>priv_lattice := Some L'\<rparr>) \<and>
           rec_names L' = rec_names L \<and>
           rec_rows L' = nths (rec_rows L) {i. msk ! i} \<and>
           subseq (rec_rows L') (rec_rows L) \<and>
           (msk = replicate (length (rec_rows L)) True \<longrightarrow> L' = L) \<and>
           (msk = replicate (length (rec_rows L)) False \<longrightarrow> rec_rows L' = [])"
proof -
  define L' where "L' = L\<lparr>rec_rows := nths (rec_rows L) {i. msk ! i}\<rparr>"
  have f: "filter_lattice msk st = (None, st\<lparr>priv_lattice := Some L'\<rparr>)"
    using lat len by (simp add: filter_lattice_def L'_def select_indices_nths)
  have sub: "subseq (rec_rows L') (rec_rows L)"
    by (auto simp: L'_def subseq_conv_nths)
  have allt: "L' = L" if "msk = replicate (length (rec_rows L)) True"
    using that by (simp add: L'_def nths_all)
  have allf: "rec_rows L' = []" if "msk = replicate (length (rec_rows L)) False"
  proof -
    have "set (nths (rec_rows L) {i. msk ! i}) = {}"
      using that by (auto simp: set_nths)
    then show ?thesis by (simp add: L'_def)
  qed
  from f sub allt allf show ?thesis by (auto simp: L'_def)
qed

theorem filter_lattice_subsequence_witness:
  "priv_lattice (registry_ab False) =
     Some \<lparr>rec_names = [''a'', ''b''],
           rec_rows = [[NpInt 1, NpInt 10], [NpInt 2, NpInt 10], [NpInt 1, NpInt 20], [NpInt 2, NpInt 20]]\<rparr> \<and>
   (\<exists>L'. filter_lattice [True, False, False, True] (registry_ab False) =
            (None, (registry_ab False)\<lparr>priv_lattice := Some L'\<rparr>) \<and>
         rec_rows L' = [[NpInt 1, NpInt 10], [NpInt 2, NpInt 20]]) \<and>
   (\<exists>L'. filter_lattice [True, True, True, True] (registry_ab False) =
            (None, (registry_ab False)\<lparr>priv_lattice := Some L'\<rparr>) \<and>
         Some L' = priv_lattice (registry_ab False)) \<and>
   (\<exists>L'. filter_lattice [False, False, False, False] (registry_ab False) =
            (None, (registry_ab False)\<lparr>priv_lattice := Some L'\<rparr>) \<and>
         rec_rows L' = [])"
proof -
  let ?st = "registry_ab False"
  define L :: "unit recarray" where "L = \<lparr>rec_names = [''a'', ''b''],
           rec_rows = [[NpInt 1, NpInt 10], [NpInt 2, NpInt 10], [NpInt 1, NpInt 20], [NpInt 2, NpInt 20]]\<rparr>"
  have lat: "priv_lattice ?st = Some L"
    by (simp add: registry_ab_eq L_def)
  have rows: "rec_rows L = [[NpInt 1, NpInt 10], [NpInt 2, NpInt 10], [NpInt 1, NpInt 20], [NpInt 2, NpInt 20]]"
    by (simp add: L_def)
  have len: "length [True, False, False, True] = length (rec_rows L)"
    "length [True, True, True, True] = length (rec_rows L)"
    "length [False, False, False, False] = length (rec_rows L)"
    by (simp_all add: rows)
  have t: "[True, True, True, True] = replicate (length (rec_rows L)) True"
    and f: "[False, False, False, False] = replicate (length (rec_rows L)) False"
    by (simp_all add: rows numeral_eq_Suc)
  from filter_lattice_subsequence [OF lat len(1)] obtain L1 where
    a1: "filter_lattice [True, False, False, True] ?st = (None, ?st\<lparr>priv_lattice := Some L1\<rparr>)"
    and b1: "rec_rows L1 = nths (rec_rows L) {i. [True, False, False, True] ! i}"
    by blast
  have "nths (rec_rows L) {i. [True, False, False, True] ! i} = [[NpInt 1, NpInt 10], [NpInt 2, NpInt 20]]"
    by (simp add: rows nths_Cons)
  with b1 have r1: "rec_rows L1 = [[NpInt 1, NpInt 10], [NpInt 2, NpInt 20]]" by simp
  from filter_lattice_subsequence [OF lat len(2)] t obtain L2 where
    a2: "filter_lattice [True, True, True, True] ?st = (None, ?st\<lparr>priv_lattice := Some L2\<rparr>)"
    and b2: "L2 = L"
    by blast
  from filter_lattice_subsequence [OF lat len(3)] f obtain L3 where
    a3: "filter_lattice [False, False, False, False] ?st = (None, ?st\<lparr>priv_lattice := Some L3\<rparr>)"
    and b3: "rec_rows L3 = []"
    by blast
  from b2 lat have c2: "Some L2 = priv_lattice ?st" by simp
  from lat have c0: "priv_lattice ?st = Some \<lparr>rec_names = [''a'', ''b''],
           rec_rows = [[NpInt 1, NpInt 10], [NpInt 2, NpInt 10], [NpInt 1, NpInt 20], [NpInt 2, NpInt 20]]\<rparr>"
    by (simp add: L_def)
  show ?thesis
    using c0 a1 r1 a2 c2 a3 b3 by (intro conjI exI) assumption+
qed

text \<open>
  C9 (as amended). A call of \<^verbatim>\<open>expand\<close> for a scalar dimension that passes both
  \<^verbatim>\<open>values\<close> and one of \<^verbatim>\<open>limits\<close>, \<^verbatim>\<open>nsamples\<close>, or no \<^verbatim>\<open>values\<close> and not both
  \<^verbatim>\<open>limits\<close> and \<^verbatim>\<open>nsamples\<close>, fails and leaves the object unchanged. The error is
  \<open>ConflictingArgumentsError\<close> when none of the names is registered yet; the names are
  checked first, so a registered name gives \<open>DuplicateNameError\<close>.
\<close>

theorem conflicting_arguments_rejected:
  assumes scalar: "\<not> is_group a"
    and bad: "(pvalues a \<noteq> None \<and> \<not> (limits a = None \<and> nsamples a = None)) \<or>
              (pvalues a = None \<and> (limits a = None \<or> nsamples a = None))"
  shows "snd (expand fo a st) = st \<and>
         fst (expand fo a st) =
           (if list_ex (\<lambda>n. n \<in> set (param_names st)) (names a) then Some DuplicateNameError
            else Some ConflictingArgumentsError)"
  using assms
  by (auto simp: expand_def check_names_scalar list_ex_nth split: option.splits)

theorem conflicting_arguments_rejected_witness:
  "expand unit_float_ops (both_call ''c'' [NpInt 1, NpInt 2] ((), ()) 3) (registry_ab False) =
     (Some ConflictingArgumentsError, registry_ab False) \<and>
   expand unit_float_ops (bare_call ''c'') (registry_ab False) =
     (Some ConflictingArgumentsError, registry_ab False)"
proof -
  let ?st = "registry_ab False"
  have fresh: "\<not> list_ex (\<lambda>n. n \<in> set (param_names ?st)) [''c'']"
    by (simp add: registry_ab_eq)
  have "snd (expand unit_float_ops (both_call ''c'' [NpInt 1, NpInt 2] ((), ()) 3) ?st) = ?st \<and>
        fst (expand unit_float_ops (both_call ''c'' [NpInt 1, NpInt 2] ((), ()) 3) ?st) =
          Some ConflictingArgumentsError"
    using conflicting_arguments_rejected [where a = "both_call ''c'' [NpInt 1, NpInt 2] ((), ()) 3" and st = ?st and fo = unit_float_ops] fresh
    by (simp add: both_call_def)
  moreover have "snd (expand unit_float_ops (bare_call ''c'') ?st) = ?st \<and>
        fst (expand unit_float_ops (bare_call ''c'') ?st) = Some ConflictingArgumentsError"
    using conflicting_arguments_rejected [where a = "bare_call ''c''" and st = ?st and fo = unit_float_ops] fresh
    by (simp add: bare_call_def)
  ultimately show ?thesis by (simp add: prod_eq_iff)
qed

text \<open>
  The claim as stated fails: with \<^verbatim>\<open>a\<close> registered,
  \<^verbatim>\<open>expand('a', limits=..., nsamples=3, values=[1, 2])\<close> raises the error of the
  duplicate name.
\<close>

theorem duplicate_name_checked_first:
  "expand unit_float_ops (both_call ''a'' [NpInt 1, NpInt 2] ((), ()) 3) (registry_ab False) =
     (Some DuplicateNameError, registry_ab False)"
  by (simp add: registry_ab_eq eval_defs Let_def)

text \<open>
  C10. After one successful call of \<^verbatim>\<open>expand\<close> on a new object that registers one
  name, a lattice is stored: the check of \<^verbatim>\<open>create_clones\<close> for a lattice passes
  (with an existing root case and consistent flags all its checks pass), while the
  property \<^verbatim>\<open>lattice\<close> fails with \<open>LatticeNotReadyError\<close>.
\<close>

theorem one_dimension_passes_clone_check:
  assumes "expand fo a (init cmp nf) = (None, st)" and "length (names a) = 1"
  shows "priv_lattice st \<noteq> None \<and> length (param_names st) = 1 \<and>
         create_clones_checks st root_is_dir rd ov cl \<noteq> Some LatticeNotReadyError \<and>
         create_clones_checks st True False ov cl = None \<and>
         lattice_property st = Inl LatticeNotReadyError"
proof -
  from expand_success [OF assms(1)] assms(2)
  have l: "priv_lattice st \<noteq> None" and n: "length (param_names st) = 1"
    by (auto simp: init_def)
  then show ?thesis
    by (simp add: create_clones_checks_def lattice_property_def)
qed

theorem one_dimension_passes_clone_check_witness:
  "expand unit_float_ops (values_call ''a'' [NpInt 1, NpInt 2]) (init ''eam'' False) =
     (None, registry_a False) \<and>
   priv_lattice (registry_a False) \<noteq> None \<and>
   create_clones_checks (registry_a False) True False False False = None \<and>
   lattice_property (registry_a False) = Inl LatticeNotReadyError"
proof -
  have e: "expand unit_float_ops (values_call ''a'' [NpInt 1, NpInt 2]) (init ''eam'' False) =
     (None, registry_a False)"
    by (simp add: registry_a_def prod_eq_iff) (simp add: eval_defs Let_def)
  have "length (names (values_call ''a'' [NpInt 1, NpInt 2] :: unit expand_args)) = 1"
    by (simp add: values_call_def)
  from one_dimension_passes_clone_check [OF e this, where root_is_dir = True and rd = False and ov = False and cl = False] e
  show ?thesis by simp
qed

end
